theory Spec2Isabelle
  imports Complex_Main "HOL-Library.Log_Nat" "HOL-Library.Multiset"
begin

section \<open>JavaScript numbers\<close>

text \<open>
  A JavaScript number is an IEEE 754 binary64 value. The model keeps \<open>NaN\<close>, the two
  infinities and the finite values; a finite value is the rational it denotes. The two
  zeros are one value (the program never divides by zero and never inspects the sign of
  a zero, so no operation of the program tells them apart). Every arithmetic operation
  computes the exact rational result and rounds it to the nearest binary64 value, ties to
  the even significand, as the hardware does.
\<close>

datatype jsnum = NaN | PInf | NInf | Fin rat

definition pow2 :: "int \<Rightarrow> rat" where
  "pow2 e = 2 powi e"

text \<open>For \<open>0 < q\<close>, \<open>ilog2 q\<close> is the exponent \<open>e\<close> with \<open>2^e \<le> q < 2^(e+1)\<close>.\<close>

definition ilog2 :: "rat \<Rightarrow> int" where
  "ilog2 q = (case quotient_of q of (a, b) \<Rightarrow>
     (let e0 = bitlen a - bitlen b in if pow2 e0 \<le> q then e0 else e0 - 1))"

text \<open>Round to the nearest integer, ties to the even one.\<close>

definition round_even :: "rat \<Rightarrow> int" where
  "round_even q = (let f = \<lfloor>q\<rfloor>; d = q - of_int f in
     if d < 1 / 2 then f else if 1 / 2 < d then f + 1 else if even f then f else f + 1)"

text \<open>
  \<open>rnd q\<close> is the binary64 value nearest to the rational \<open>q\<close>: 53 significant bits,
  exponents from \<open>-1022\<close> (below it the spacing stays \<open>2^-1074\<close>: subnormal numbers) and
  an infinity once the rounded magnitude reaches \<open>2^1024\<close>.
\<close>

definition rnd :: "rat \<Rightarrow> jsnum" where
  "rnd q = (if q = 0 then Fin 0 else
     (let a = \<bar>q\<bar>;
          e = max (ilog2 a) (- 1022);
          u = pow2 (e - 52);
          r = of_int (round_even (a / u)) * u
      in if pow2 1024 \<le> r then (if 0 < q then PInf else NInf)
         else Fin (if 0 < q then r else - r)))"

fun js_neg :: "jsnum \<Rightarrow> jsnum" where
  "js_neg NaN = NaN"
| "js_neg PInf = NInf"
| "js_neg NInf = PInf"
| "js_neg (Fin a) = Fin (- a)"

fun js_add :: "jsnum \<Rightarrow> jsnum \<Rightarrow> jsnum" where
  "js_add NaN _ = NaN"
| "js_add _ NaN = NaN"
| "js_add PInf NInf = NaN"
| "js_add NInf PInf = NaN"
| "js_add PInf _ = PInf"
| "js_add _ PInf = PInf"
| "js_add NInf _ = NInf"
| "js_add _ NInf = NInf"
| "js_add (Fin a) (Fin b) = rnd (a + b)"

definition js_sub :: "jsnum \<Rightarrow> jsnum \<Rightarrow> jsnum" where
  "js_sub x y = js_add x (js_neg y)"

text \<open>The sign of a number that is not \<open>NaN\<close>: \<open>-1\<close>, \<open>0\<close> or \<open>1\<close>.\<close>

fun js_sign :: "jsnum \<Rightarrow> int" where
  "js_sign NaN = 0"
| "js_sign PInf = 1"
| "js_sign NInf = - 1"
| "js_sign (Fin a) = (if 0 < a then 1 else if a < 0 then - 1 else 0)"

fun js_mul :: "jsnum \<Rightarrow> jsnum \<Rightarrow> jsnum" where
  "js_mul NaN _ = NaN"
| "js_mul _ NaN = NaN"
| "js_mul (Fin a) (Fin b) = rnd (a * b)"
| "js_mul x y =
     (if js_sign x * js_sign y = 0 then NaN
      else if 0 < js_sign x * js_sign y then PInf else NInf)"

text \<open>
  Division. The program divides only under the guard \<open>totalEquity > 0\<close>; a zero divisor
  is given the results of division by \<open>+0\<close>.
\<close>

fun js_div :: "jsnum \<Rightarrow> jsnum \<Rightarrow> jsnum" where
  "js_div NaN _ = NaN"
| "js_div _ NaN = NaN"
| "js_div (Fin a) (Fin b) =
     (if b = 0 then (if a = 0 then NaN else if 0 < a then PInf else NInf)
      else rnd (a / b))"
| "js_div (Fin a) _ = Fin 0"
| "js_div x (Fin b) =
     (if 0 \<le> js_sign x * js_sign (Fin b) then (if b = 0 then x else PInf) else NInf)"
| "js_div _ _ = NaN"

text \<open>The relational operators: every comparison with \<open>NaN\<close> is false.\<close>

fun js_lt :: "jsnum \<Rightarrow> jsnum \<Rightarrow> bool" where
  "js_lt NaN _ = False"
| "js_lt _ NaN = False"
| "js_lt PInf _ = False"
| "js_lt _ NInf = False"
| "js_lt NInf _ = True"
| "js_lt _ PInf = True"
| "js_lt (Fin a) (Fin b) = (a < b)"

definition js_gt :: "jsnum \<Rightarrow> jsnum \<Rightarrow> bool" where
  "js_gt x y = js_lt y x"

fun js_ge :: "jsnum \<Rightarrow> jsnum \<Rightarrow> bool" where
  "js_ge NaN _ = False"
| "js_ge _ NaN = False"
| "js_ge x y = (\<not> js_lt x y)"

text \<open>\<open>x || 0\<close> on a number: \<open>NaN\<close> and zero are falsy.\<close>

fun js_or_zero :: "jsnum \<Rightarrow> jsnum" where
  "js_or_zero NaN = Fin 0"
| "js_or_zero x = x"


text \<open>
  The finite binary64 values are multiples of \<open>2^-1074\<close>; \<open>on_grid\<close> says that a
  rational is such a multiple.
\<close>

definition on_grid :: "rat \<Rightarrow> bool" where
  "on_grid r = (of_int \<lfloor>r * pow2 1074\<rfloor> = r * pow2 1074)"

section \<open>Strings\<close>

text \<open>
  Strings are byte strings; the letters, digits and blanks the program looks at are
  ASCII. \<open>toUpperCase\<close> maps \<open>a\<close> .. \<open>z\<close> to \<open>A\<close> .. \<open>Z\<close> and keeps every other byte.
\<close>

definition toUpperCase :: "string \<Rightarrow> string" where
  "toUpperCase s =
     map (\<lambda>c. if 97 \<le> (of_char c :: nat) \<and> (of_char c :: nat) \<le> 122
              then char_of ((of_char c :: nat) - 32) else c) s"

text \<open>A string or \<open>null\<close> in a condition: \<open>null\<close> and the empty string are falsy.\<close>

fun truthy :: "string option \<Rightarrow> bool" where
  "truthy None = False"
| "truthy (Some s) = (s \<noteq> [])"

definition is_digit :: "char \<Rightarrow> bool" where
  "is_digit c = (48 \<le> (of_char c :: nat) \<and> (of_char c :: nat) \<le> 57)"

definition is_space :: "char \<Rightarrow> bool" where
  "is_space c = ((of_char c :: nat) \<in> {9, 10, 11, 12, 13, 32})"

definition digits_value :: "string \<Rightarrow> nat" where
  "digits_value ds = foldl (\<lambda>n c. 10 * n + ((of_char c :: nat) - 48)) 0 ds"

text \<open>
  The exponent part of a decimal literal: \<open>e\<close> or \<open>E\<close>, an optional sign and at least
  one digit. Anything else is not part of the literal and counts as exponent \<open>0\<close>.
\<close>

definition exponent_part :: "string \<Rightarrow> int" where
  "exponent_part s =
     (case s of
        [] \<Rightarrow> 0
      | c # r \<Rightarrow>
          if c = CHR ''e'' \<or> c = CHR ''E'' then
            (case r of
               [] \<Rightarrow> 0
             | d # r' \<Rightarrow>
                 if d = CHR ''-'' then - int (digits_value (takeWhile is_digit r'))
                 else if d = CHR ''+'' then int (digits_value (takeWhile is_digit r'))
                 else int (digits_value (takeWhile is_digit r)))
          else 0)"

text \<open>
  \<open>parseFloat\<close> (ECMAScript 19.2.4): skip leading blanks, read the longest prefix that
  is a decimal literal (a sign, then \<open>Infinity\<close> or digits with an optional fraction and
  exponent) and round its value to a number; \<open>NaN\<close> when there is no such prefix.
\<close>

definition parseFloat :: "string \<Rightarrow> jsnum" where
  "parseFloat s =
     (let t = dropWhile is_space s;
          neg = (t \<noteq> [] \<and> hd t = CHR ''-'');
          u = (if t \<noteq> [] \<and> (hd t = CHR ''-'' \<or> hd t = CHR ''+'') then tl t else t);
          ip = takeWhile is_digit u;
          r1 = dropWhile is_digit u;
          dot = (r1 \<noteq> [] \<and> hd r1 = CHR ''.'');
          fp = (if dot then takeWhile is_digit (tl r1) else []);
          r2 = (if dot then dropWhile is_digit (tl r1) else r1);
          m = of_nat (digits_value (ip @ fp)) / 10 ^ length fp * 10 powi exponent_part r2
      in if take 8 u = ''Infinity'' then (if neg then NInf else PInf)
         else if ip = [] \<and> fp = [] then NaN
         else rnd (if neg then - m else m))"

section \<open>JSON values\<close>

text \<open>
  What \<open>JSON.parse\<close> and \<open>response.json()\<close> return. The fields of an object are
  listed as parsed, every key once.
\<close>

datatype json =
    JNull
  | JBool bool
  | JNum jsnum
  | JStr string
  | JArr "json list"
  | JObj "(string \<times> json) list"

text \<open>
  \<open>v[k]\<close> for a value \<open>v\<close> other than \<open>null\<close> and a key \<open>k\<close> that is not a built-in
  property (\<open>timestamp\<close>, \<open>bestMatches\<close>, \<open>1. symbol\<close>, \<open>2. name\<close>): the field of an
  object, \<open>undefined\<close> (\<open>None\<close>) for every other value. On \<open>null\<close> the access throws;
  the callers treat that case before they use \<open>field\<close>.
\<close>

fun field :: "json \<Rightarrow> string \<Rightarrow> json option" where
  "field (JObj fs) k = map_of fs k"
| "field _ k = None"

text \<open>
  \<open>StringToNumber\<close> (ECMAScript 7.1.4.1.1), the coercion of a string in arithmetic:
  blanks are trimmed at both ends, the empty string is \<open>0\<close>, and the whole rest must be
  a decimal literal (as for \<open>parseFloat\<close>) or a literal \<open>0x..\<close>, \<open>0o..\<close>, \<open>0b..\<close>;
  everything else is \<open>NaN\<close>.
\<close>

definition trim :: "string \<Rightarrow> string" where
  "trim s = rev (dropWhile is_space (rev (dropWhile is_space s)))"

definition digit_of :: "char \<Rightarrow> nat" where
  "digit_of c =
     (let n = (of_char c :: nat) in
      if 48 \<le> n \<and> n \<le> 57 then n - 48
      else if 97 \<le> n \<and> n \<le> 102 then n - 87
      else if 65 \<le> n \<and> n \<le> 70 then n - 55
      else 16)"

definition radix_literal :: "string \<Rightarrow> nat option" where
  "radix_literal t =
     (case t of
        c0 # c1 # ds \<Rightarrow>
          (let base = (if c1 = CHR ''x'' \<or> c1 = CHR ''X'' then 16
                       else if c1 = CHR ''o'' \<or> c1 = CHR ''O'' then 8
                       else if c1 = CHR ''b'' \<or> c1 = CHR ''B'' then 2
                       else (0::nat))
           in if c0 = CHR ''0'' \<and> base \<noteq> 0 \<and> ds \<noteq> [] \<and> list_all (\<lambda>c. digit_of c < base) ds
              then Some (foldl (\<lambda>n c. base * n + digit_of c) 0 ds)
              else None)
      | _ \<Rightarrow> None)"

text \<open>What follows the exponent part at the start of \<open>s\<close>, or \<open>s\<close> when there is none.\<close>

definition exponent_rest :: "string \<Rightarrow> string" where
  "exponent_rest s =
     (case s of
        [] \<Rightarrow> []
      | c # r \<Rightarrow>
          if c = CHR ''e'' \<or> c = CHR ''E'' then
            (case r of
               [] \<Rightarrow> s
             | d # r' \<Rightarrow>
                 if d = CHR ''-'' \<or> d = CHR ''+''
                 then (if takeWhile is_digit r' = [] then s else dropWhile is_digit r')
                 else (if takeWhile is_digit r = [] then s else dropWhile is_digit r))
          else s)"

text \<open>
  What follows the longest decimal literal at the start of \<open>t\<close>; \<open>None\<close> when \<open>t\<close> does
  not start with one. The literal is the one \<open>parseFloat\<close> reads.
\<close>

definition decimal_rest :: "string \<Rightarrow> string option" where
  "decimal_rest t =
     (let u = (if t \<noteq> [] \<and> (hd t = CHR ''-'' \<or> hd t = CHR ''+'') then tl t else t);
          ip = takeWhile is_digit u;
          r1 = dropWhile is_digit u;
          dot = (r1 \<noteq> [] \<and> hd r1 = CHR ''.'');
          fp = (if dot then takeWhile is_digit (tl r1) else []);
          r2 = (if dot then dropWhile is_digit (tl r1) else r1)
      in if take 8 u = ''Infinity'' then Some (drop 8 u)
         else if ip = [] \<and> fp = [] then None
         else Some (exponent_rest r2))"

definition string_to_number :: "string \<Rightarrow> jsnum" where
  "string_to_number s =
     (let t = trim s in
      if t = [] then Fin 0
      else (case radix_literal t of
              Some n \<Rightarrow> rnd (of_nat n)
            | None \<Rightarrow> if decimal_rest t = Some [] then parseFloat t else NaN))"

text \<open>
  \<open>ToNumber\<close> of a JSON value, as the operator \<open>-\<close> applies it: \<open>null\<close> is \<open>0\<close>, a
  boolean is \<open>0\<close> or \<open>1\<close>, a string goes through \<open>StringToNumber\<close>, an object is \<open>NaN\<close>
  (its text is \<open>[object Object]\<close>). An array is coerced through its text, the texts of
  its elements joined by commas: the empty array is \<open>0\<close>, an array of two or more
  elements is \<open>NaN\<close>, and an array of one element has the text of that element (empty
  for \<open>null\<close>, \<open>true\<close> or \<open>false\<close> for a boolean; the text of a number reads back as
  the number).
\<close>

fun to_number :: "json \<Rightarrow> jsnum" where
  "to_number JNull = Fin 0"
| "to_number (JBool b) = (if b then Fin 1 else Fin 0)"
| "to_number (JNum x) = x"
| "to_number (JStr s) = string_to_number s"
| "to_number (JObj fs) = NaN"
| "to_number (JArr []) = Fin 0"
| "to_number (JArr [JNull]) = Fin 0"
| "to_number (JArr [JBool b]) = NaN"
| "to_number (JArr [JNum x]) = x"
| "to_number (JArr [JStr s]) = string_to_number s"
| "to_number (JArr [JObj fs]) = NaN"
| "to_number (JArr [JArr xs]) = to_number (JArr xs)"
| "to_number (JArr (x # y # zs)) = NaN"

text \<open>\<open>ToNumber\<close> of a field that may be missing: \<open>undefined\<close> is \<open>NaN\<close>.\<close>

definition field_to_number :: "json option \<Rightarrow> jsnum" where
  "field_to_number v = (case v of None \<Rightarrow> NaN | Some j \<Rightarrow> to_number j)"

section \<open>Data model (types.ts)\<close>

text \<open>
  \<open>AVHolding.symbol\<close> is declared a string, but the aggregation expects \<open>null\<close> there
  too (its comment: \<open>Normalize N/A or null symbols to CASH\<close>), so it is an option here.
\<close>

record AVHolding =
  symbol :: "string option"
  description :: string
  weight :: string
  assets :: string

record AVSector =
  sector :: string
  sector_weight :: string

text \<open>
  \<open>holdings\<close> and \<open>sectors\<close> are options because the aggregation guards both with a
  truthiness test (\<open>item.data.holdings\<close>, \<open>item.data.sectors\<close>): \<open>None\<close> is a missing list.
  \<open>name\<close> is declared \<open>name?: string\<close>; \<open>fetchEtfProfile\<close> stores there whatever the
  name lookup yields, a JSON value or \<open>undefined\<close> (\<open>None\<close>).
\<close>

record EtfProfileData =
  etf_symbol :: string
  name :: "json option"
  net_assets :: string
  portfolio_turnover :: string
  net_expense_ratio :: string
  dividend_yield :: string
  holdings :: "AVHolding list option"
  sectors :: "AVSector list option"

record PortfolioItem =
  item_id :: string
  item_ticker :: string
  equity :: jsnum
  data :: "EtfProfileData option"
  isLoading :: bool
  error :: "string option"

record AggregatedHolding =
  holding_ticker :: string
  holding_name :: string
  assetClass :: string
  totalValue :: jsnum
  percentageOfPortfolio :: jsnum

record AggregatedSector =
  sector_name :: string
  sector_value :: jsnum
  percentage :: jsnum

section \<open>Portfolio statistics (App.tsx, \<open>stats\<close>)\<close>

record stats_acc =
  acc_totalEquity :: jsnum
  acc_weightedExpense :: jsnum
  acc_weightedYield :: jsnum
  acc_validItemsCount :: nat

record PortfolioStats =
  totalEquity :: jsnum
  avgExpenseRatio :: jsnum
  avgDividendYield :: jsnum
  totalAnnualExpense :: jsnum
  totalAnnualDividend :: jsnum
  hasData :: bool

text \<open>The body of \<open>portfolio.forEach\<close> in \<open>stats\<close>.\<close>

definition stats_step :: "stats_acc \<Rightarrow> PortfolioItem \<Rightarrow> stats_acc" where
  "stats_step a item =
     (case data item of
        None \<Rightarrow> a
      | Some d \<Rightarrow>
          if truthy (error item) then a
          else
            (let expenseRatio = js_or_zero (parseFloat (net_expense_ratio d));
                 divYield = js_or_zero (parseFloat (dividend_yield d))
             in \<lparr>acc_totalEquity = js_add (acc_totalEquity a) (equity item),
                 acc_weightedExpense =
                   js_add (acc_weightedExpense a) (js_mul expenseRatio (equity item)),
                 acc_weightedYield =
                   js_add (acc_weightedYield a) (js_mul divYield (equity item)),
                 acc_validItemsCount = acc_validItemsCount a + 1\<rparr>))"

text \<open>
  \<open>stats\<close>. The division operator is a parameter of \<open>stats_with\<close>, so that a property
  can say that the result does not depend on what a division by zero would give;
  \<open>stats\<close> is the function with the division of the language.
\<close>

definition stats_with ::
  "(jsnum \<Rightarrow> jsnum \<Rightarrow> jsnum) \<Rightarrow> PortfolioItem list \<Rightarrow> PortfolioStats" where
  "stats_with dv portfolio =
     (let a = foldl stats_step
                \<lparr>acc_totalEquity = Fin 0, acc_weightedExpense = Fin 0,
                 acc_weightedYield = Fin 0, acc_validItemsCount = 0\<rparr> portfolio
      in \<lparr>totalEquity = acc_totalEquity a,
          avgExpenseRatio =
            (if js_gt (acc_totalEquity a) (Fin 0)
             then dv (acc_weightedExpense a) (acc_totalEquity a) else Fin 0),
          avgDividendYield =
            (if js_gt (acc_totalEquity a) (Fin 0)
             then dv (acc_weightedYield a) (acc_totalEquity a) else Fin 0),
          totalAnnualExpense = acc_weightedExpense a,
          totalAnnualDividend = acc_weightedYield a,
          hasData = (0 < acc_validItemsCount a)\<rparr>)"

definition stats :: "PortfolioItem list \<Rightarrow> PortfolioStats" where
  "stats portfolio = stats_with js_div portfolio"

section \<open>Aggregation (App.tsx, \<open>aggregatedData\<close>)\<close>

text \<open>
  A JavaScript \<open>Map\<close> iterates its keys in the order of their first insertion, and
  \<open>set\<close> on a key that is present keeps the key's place: an association list.
\<close>

definition map_get :: "('k \<times> 'v) list \<Rightarrow> 'k \<Rightarrow> 'v option" where
  "map_get m k = map_of m k"

fun map_set :: "'k \<Rightarrow> 'v \<Rightarrow> ('k \<times> 'v) list \<Rightarrow> ('k \<times> 'v) list" where
  "map_set k v [] = [(k, v)]"
| "map_set k v ((k', v') # m) =
     (if k' = k then (k, v) # m else (k', v') # map_set k v m)"

record holding_entry =
  entry_value :: jsnum
  entry_name :: string
  entry_assetClass :: string

type_synonym holdingMap = "(string \<times> holding_entry) list"
type_synonym sectorMap = "(string \<times> jsnum) list"

text \<open>The symbols that stand for cash: \<open>!symbol || symbol === 'N/A' || symbol === '-'\<close>.\<close>

definition is_cash :: "string option \<Rightarrow> bool" where
  "is_cash s = (\<not> truthy s \<or> s = Some ''N/A'' \<or> s = Some ''-'')"

definition holding_key :: "AVHolding \<Rightarrow> string" where
  "holding_key h = (if is_cash (symbol h) then ''CASH'' else the (symbol h))"

definition holding_description :: "AVHolding \<Rightarrow> string" where
  "holding_description h =
     (if is_cash (symbol h) then ''Cash / Other Assets'' else description h)"

text \<open>The body of \<open>item.data.holdings.forEach\<close>; \<open>eq\<close> is \<open>item.equity\<close>.\<close>

definition holding_step :: "jsnum \<Rightarrow> holdingMap \<Rightarrow> AVHolding \<Rightarrow> holdingMap" where
  "holding_step eq m h =
     (let sym = holding_key h;
          desc = holding_description h;
          w = parseFloat (weight h);
          holdingValue = js_mul eq w;
          current = (case map_get m sym of
                       Some c \<Rightarrow> c
                     | None \<Rightarrow> \<lparr>entry_value = Fin 0, entry_name = desc,
                                entry_assetClass = assets h\<rparr>)
      in map_set sym
           \<lparr>entry_value = js_add (entry_value current) holdingValue,
            entry_name = (if desc \<noteq> [] then desc else entry_name current),
            entry_assetClass =
              (if assets h \<noteq> [] then assets h else entry_assetClass current)\<rparr> m)"

text \<open>
  The body of \<open>item.data.sectors.forEach\<close>. \<open>sectorMap.get(k) || 0\<close> replaces a stored
  \<open>NaN\<close> by \<open>0\<close> as well as a missing key.
\<close>

definition sector_step :: "jsnum \<Rightarrow> sectorMap \<Rightarrow> AVSector \<Rightarrow> sectorMap" where
  "sector_step eq m s =
     (let w = parseFloat (sector_weight s);
          sectorValue = js_mul eq w;
          currentVal = (case map_get m (sector s) of
                          Some v \<Rightarrow> js_or_zero v
                        | None \<Rightarrow> Fin 0)
      in map_set (sector s) (js_add currentVal sectorValue) m)"

text \<open>The body of \<open>portfolio.forEach\<close> in \<open>aggregatedData\<close>.\<close>

definition item_step :: "holdingMap \<times> sectorMap \<Rightarrow> PortfolioItem \<Rightarrow> holdingMap \<times> sectorMap" where
  "item_step maps item =
     (case data item of
        None \<Rightarrow> maps
      | Some d \<Rightarrow>
          (case holdings d of
             None \<Rightarrow> maps
           | Some hs \<Rightarrow>
               if truthy (error item) then maps
               else
                 (foldl (holding_step (equity item)) (fst maps) hs,
                  (case sectors d of
                     None \<Rightarrow> snd maps
                   | Some ss \<Rightarrow> foldl (sector_step (equity item)) (snd maps) ss))))"

text \<open>
  \<open>Array.prototype.sort\<close> with a comparator. ECMAScript reads a comparator result of
  \<open>NaN\<close> as \<open>0\<close>. When the comparator orders the elements consistently, it asks for
  the sorted arrangement that keeps elements the comparator holds equal in their order
  (a stable sort), and every engine gives that one arrangement. When the comparator
  is not consistent, as \<open>b - a\<close> is once a value is \<open>NaN\<close>, the order is left to the
  engine. The model is the insertion sort that moves each element in turn to the left,
  past every element the comparator puts after it; \<open>sort_insert\<close> works on the
  reversed sorted prefix. With a consistent comparator it is the arrangement of the
  language; without one it is a permutation, and which one is a fact of the model, not
  of the engine.
\<close>

fun sort_insert :: "('a \<Rightarrow> 'a \<Rightarrow> jsnum) \<Rightarrow> 'a \<Rightarrow> 'a list \<Rightarrow> 'a list" where
  "sort_insert cmp x [] = [x]"
| "sort_insert cmp x (y # ys) =
     (if js_gt (cmp y x) (Fin 0) then y # sort_insert cmp x ys else x # y # ys)"

definition js_sort :: "('a \<Rightarrow> 'a \<Rightarrow> jsnum) \<Rightarrow> 'a list \<Rightarrow> 'a list" where
  "js_sort cmp xs = rev (foldl (\<lambda>acc x. sort_insert cmp x acc) [] xs)"

text \<open>
  \<open>stats.totalEquity > 0 ? (value / stats.totalEquity) * 100 : 0\<close>, the only division
  of \<open>aggregatedData\<close>; the division operator is a parameter as in \<open>stats_with\<close>.
\<close>

definition percent_with :: "(jsnum \<Rightarrow> jsnum \<Rightarrow> jsnum) \<Rightarrow> jsnum \<Rightarrow> jsnum \<Rightarrow> jsnum" where
  "percent_with dv te v =
     (if js_gt te (Fin 0) then js_mul (dv v te) (Fin 100) else Fin 0)"

definition percent_of :: "jsnum \<Rightarrow> jsnum \<Rightarrow> jsnum" where
  "percent_of te v = percent_with js_div te v"

definition to_holding :: "jsnum \<Rightarrow> string \<times> holding_entry \<Rightarrow> AggregatedHolding" where
  "to_holding te e =
     \<lparr>holding_ticker = fst e, holding_name = entry_name (snd e),
      assetClass = entry_assetClass (snd e), totalValue = entry_value (snd e),
      percentageOfPortfolio = percent_of te (entry_value (snd e))\<rparr>"

definition to_sector :: "jsnum \<Rightarrow> string \<times> jsnum \<Rightarrow> AggregatedSector" where
  "to_sector te e =
     \<lparr>sector_name = fst e, sector_value = snd e, percentage = percent_of te (snd e)\<rparr>"

definition merged_maps :: "PortfolioItem list \<Rightarrow> holdingMap \<times> sectorMap" where
  "merged_maps portfolio = foldl item_step ([], []) portfolio"

definition aggregateHoldings :: "PortfolioItem list \<Rightarrow> AggregatedHolding list" where
  "aggregateHoldings portfolio =
     js_sort (\<lambda>a b. js_sub (totalValue b) (totalValue a))
       (map (to_holding (totalEquity (stats portfolio))) (fst (merged_maps portfolio)))"

definition aggregateSectors :: "PortfolioItem list \<Rightarrow> AggregatedSector list" where
  "aggregateSectors portfolio =
     js_sort (\<lambda>a b. js_sub (sector_value b) (sector_value a))
       (map (to_sector (totalEquity (stats portfolio))) (snd (merged_maps portfolio)))"

definition aggregatedData ::
  "PortfolioItem list \<Rightarrow> AggregatedHolding list \<times> AggregatedSector list" where
  "aggregatedData portfolio = (aggregateHoldings portfolio, aggregateSectors portfolio)"


section \<open>The profile cache (services/alphaVantage.ts)\<close>

text \<open>
  \<open>localStorage\<close> maps keys to texts. A text is modelled by what \<open>getCache\<close> can see
  of it: whether it is empty, whether \<open>JSON.parse\<close> accepts it, whether it parses to
  \<open>null\<close>, and for every other parsed value its \<open>timestamp\<close> field, as the JSON value
  it is (\<open>None\<close> when the value has no such field), and its \<open>data\<close> field (\<open>None\<close>
  when there is none or it is falsy). \<open>EntryText (Some (JNum t)) (Some d)\<close> is the text
  that \<open>JSON.stringify\<close> writes for an entry, and \<open>JSON.parse\<close> gives the entry back.
  \<open>getCache\<close> never looks into the \<open>data\<close> field, it hands it on: a field that is there
  is taken to be a profile.
\<close>

datatype stored_text =
    EmptyText
  | InvalidJson
  | NullJson
  | EntryText "json option" "EtfProfileData option"

type_synonym localStorage = "string \<rightharpoonup> stored_text"

definition CACHE_DURATION :: int where
  "CACHE_DURATION = 24 * 60 * 60 * 1000"

definition cache_key :: "string \<Rightarrow> string" where
  "cache_key ticker = ''av_etf_v4_'' @ toUpperCase ticker"

text \<open>
  \<open>now - entry.timestamp < CACHE_DURATION\<close>: \<open>now\<close> is the integer of \<open>Date.now()\<close>, the
  timestamp is coerced to a number, and the comparison is false when the difference is
  \<open>NaN\<close>.
\<close>

definition is_fresh :: "int \<Rightarrow> json option \<Rightarrow> bool" where
  "is_fresh now timestamp =
     js_lt (js_sub (Fin (of_int now)) (field_to_number timestamp)) (Fin (of_int CACHE_DURATION))"

text \<open>\<open>getCache\<close> returns the cached profile (or \<open>null\<close>) and the storage it leaves.\<close>

definition getCache ::
  "localStorage \<Rightarrow> int \<Rightarrow> string \<Rightarrow> EtfProfileData option \<times> localStorage" where
  "getCache ls now ticker =
     (let key = cache_key ticker in
      case ls key of
        None \<Rightarrow> (None, ls)
      | Some EmptyText \<Rightarrow> (None, ls)
      | Some InvalidJson \<Rightarrow> (None, ls(key := None))
      | Some NullJson \<Rightarrow> (None, ls(key := None))
      | Some (EntryText timestamp d) \<Rightarrow>
          if is_fresh now timestamp then (d, ls) else (None, ls(key := None)))"

text \<open>
  \<open>setCache\<close>; \<open>accepted\<close> says whether \<open>localStorage.setItem\<close> takes the write. When
  it throws (quota exceeded) the exception is caught and the storage stays as it was.
\<close>

definition setCache ::
  "bool \<Rightarrow> localStorage \<Rightarrow> int \<Rightarrow> string \<Rightarrow> EtfProfileData \<Rightarrow> localStorage" where
  "setCache accepted ls now ticker d =
     (if accepted
      then ls(cache_key ticker \<mapsto> EntryText (Some (JNum (Fin (of_int now)))) (Some d))
      else ls)"

section \<open>Fetching a profile (services/alphaVantage.ts, \<open>fetchEtfProfile\<close>)\<close>

text \<open>
  The errors \<open>fetchEtfProfile\<close> throws, under the names of the specification:
  \<open>Transport\<close> is \<open>HTTP error! status: n\<close>, \<open>NotFound\<close> is
  \<open>Ticker not found or invalid\<close>, \<open>RateLimited\<close> is \<open>API Limit Reached (25/day)\<close>,
  \<open>DailyLimitExceeded\<close> is \<open>Daily Limit Exceeded\<close>, \<open>NoHoldingData\<close> is
  \<open>No holding data available\<close>. \<open>Uncaught\<close> is an exception of the runtime that the
  function lets through: \<open>fetch\<close> rejects, or the body does not decode to an object.
\<close>

datatype fetch_error =
    Transport nat
  | NotFound
  | RateLimited
  | DailyLimitExceeded
  | NoHoldingData
  | Uncaught

text \<open>A field that should hold an array: missing (or falsy), not an array, or an array.\<close>

datatype 'a array_field = Missing | NotArray | Array "'a list"

text \<open>The decoded body of the \<open>ETF_PROFILE\<close> answer.\<close>

record profile_body =
  body_error_message :: "string option"
  body_note :: "string option"
  body_information :: "string option"
  body_symbol :: string
  body_net_assets :: string
  body_portfolio_turnover :: string
  body_net_expense_ratio :: string
  body_dividend_yield :: string
  body_holdings :: "AVHolding array_field"
  body_sectors :: "AVSector list option"

text \<open>
  What the provider answers to the profile query: \<open>fetch\<close> rejects, or a response with
  its \<open>ok\<close> flag, its status and its body (\<open>None\<close>: \<open>response.json()\<close> rejects, or the
  body is \<open>null\<close>).
\<close>

datatype profile_reply =
    ProfileRejected
  | ProfileResponse bool nat "profile_body option"

text \<open>
  What the provider answers to the \<open>SYMBOL_SEARCH\<close> query: \<open>fetch\<close> rejects, the body
  does not decode, or the decoded body.
\<close>

datatype search_reply =
    SearchRejected
  | SearchUndecodable
  | SearchBody json

text \<open>
  The surroundings of one call: the clock when the cache is read, the two answers of
  the provider, the clock when the cache is written and whether the storage takes the
  write.
\<close>

record fetch_env =
  now_read :: int
  profile_answer :: profile_reply
  search_answer :: search_reply
  now_write :: int
  write_accepted :: bool

text \<open>Step 3 and the holdings check: the first failing check decides the error.\<close>

definition check_body :: "profile_body \<Rightarrow> fetch_error + AVHolding list" where
  "check_body b =
     (if truthy (body_error_message b) then Inl NotFound
      else if truthy (body_note b) then Inl RateLimited
      else if truthy (body_information b) then Inl DailyLimitExceeded
      else (case body_holdings b of
              Array hs \<Rightarrow> Inr hs
            | _ \<Rightarrow> Inl NoHoldingData))"

text \<open>
  \<open>bestMatches.find(m => m['1. symbol'] === ticker)\<close>: the first entry whose symbol
  is the ticker. The callback throws on an entry that is \<open>null\<close>.
\<close>

datatype find_result = Threw | NoMatch | Match json

fun find_match :: "string \<Rightarrow> json list \<Rightarrow> find_result" where
  "find_match ticker [] = NoMatch"
| "find_match ticker (JNull # ms) = Threw"
| "find_match ticker (m # ms) =
     (if field m ''1. symbol'' = Some (JStr ticker) then Match m else find_match ticker ms)"

text \<open>
  Step 4, the name lookup, with its \<open>try\<close> and \<open>catch\<close>: \<open>etfName\<close> starts as the ticker
  and becomes \<open>match['2. name']\<close>, whatever that is, when a match is found. A rejected
  query, a body that does not decode, a body that is \<open>null\<close> and a \<open>null\<close> entry all
  throw inside the \<open>try\<close>.
\<close>

definition search_result :: "string \<Rightarrow> search_reply \<Rightarrow> find_result" where
  "search_result ticker r =
     (case r of
        SearchRejected \<Rightarrow> Threw
      | SearchUndecodable \<Rightarrow> Threw
      | SearchBody JNull \<Rightarrow> Threw
      | SearchBody searchData \<Rightarrow>
          (case field searchData ''bestMatches'' of
             Some (JArr bestMatches) \<Rightarrow> find_match ticker bestMatches
           | _ \<Rightarrow> NoMatch))"

definition lookup_name :: "string \<Rightarrow> search_reply \<Rightarrow> json option" where
  "lookup_name ticker r =
     (case search_result ticker r of
        Match m \<Rightarrow> field m ''2. name''
      | _ \<Rightarrow> Some (JStr ticker))"

definition final_data ::
  "profile_body \<Rightarrow> AVHolding list \<Rightarrow> json option \<Rightarrow> EtfProfileData" where
  "final_data b hs etfName =
     \<lparr>etf_symbol = body_symbol b, name = etfName, net_assets = body_net_assets b,
      portfolio_turnover = body_portfolio_turnover b,
      net_expense_ratio = body_net_expense_ratio b,
      dividend_yield = body_dividend_yield b,
      holdings = Some hs, sectors = body_sectors b\<rparr>"

definition fetchEtfProfile ::
  "fetch_env \<Rightarrow> localStorage \<Rightarrow> string \<Rightarrow> (fetch_error + EtfProfileData) \<times> localStorage" where
  "fetchEtfProfile env ls ticker =
     (case getCache ls (now_read env) ticker of
        (Some cachedData, ls') \<Rightarrow> (Inr cachedData, ls')
      | (None, ls') \<Rightarrow>
          (case profile_answer env of
             ProfileRejected \<Rightarrow> (Inl Uncaught, ls')
           | ProfileResponse ok status body \<Rightarrow>
               if \<not> ok then (Inl (Transport status), ls')
               else
                 (case body of
                    None \<Rightarrow> (Inl Uncaught, ls')
                  | Some b \<Rightarrow>
                      (case check_body b of
                         Inl e \<Rightarrow> (Inl e, ls')
                       | Inr hs \<Rightarrow>
                           (let etfName = lookup_name ticker (search_answer env);
                                finalData = final_data b hs etfName
                            in (Inr finalData,
                                setCache (write_accepted env) ls' (now_write env)
                                  ticker finalData))))))"

section \<open>Notions used to state the properties\<close>

text \<open>
  A position takes part in \<open>stats\<close> when its profile is there and its error is falsy
  (\<open>item.data && !item.error\<close>); it takes part in \<open>aggregatedData\<close> when its profile
  also has a holdings list.
\<close>

definition contributes :: "PortfolioItem \<Rightarrow> bool" where
  "contributes item = (data item \<noteq> None \<and> \<not> truthy (error item))"

definition aggregates :: "PortfolioItem \<Rightarrow> bool" where
  "aggregates item =
     (case data item of
        None \<Rightarrow> False
      | Some d \<Rightarrow> holdings d \<noteq> None \<and> \<not> truthy (error item))"

text \<open>The sum of a list as the program computes it: from \<open>0\<close>, left to right.\<close>

definition js_sum :: "jsnum list \<Rightarrow> jsnum" where
  "js_sum xs = foldl js_add (Fin 0) xs"

definition item_holdings :: "PortfolioItem \<Rightarrow> AVHolding list" where
  "item_holdings item =
     (case data item of
        None \<Rightarrow> []
      | Some d \<Rightarrow> (case holdings d of None \<Rightarrow> [] | Some hs \<Rightarrow> hs))"

text \<open>\<open>item.equity * parseFloat(holding.weight)\<close>.\<close>

definition holding_value :: "jsnum \<Rightarrow> AVHolding \<Rightarrow> jsnum" where
  "holding_value eq h = js_mul eq (parseFloat (weight h))"

text \<open>
  Every holding of every aggregating position, in the order the loops meet them, as
  the pair of its map key and its value.
\<close>

definition contributions :: "PortfolioItem list \<Rightarrow> (string \<times> jsnum) list" where
  "contributions portfolio =
     concat (map (\<lambda>item. map (\<lambda>h. (holding_key h, holding_value (equity item) h))
                               (item_holdings item))
                 (filter aggregates portfolio))"

definition bucket_value :: "holdingMap \<Rightarrow> string \<Rightarrow> jsnum" where
  "bucket_value m k = (case map_get m k of None \<Rightarrow> Fin 0 | Some c \<Rightarrow> entry_value c)"

text \<open>The sum of the values of all holdings with the map key \<open>k\<close>.\<close>

definition bucket_total :: "PortfolioItem list \<Rightarrow> string \<Rightarrow> jsnum" where
  "bucket_total p k = js_sum (map snd (filter (\<lambda>c. fst c = k) (contributions p)))"

text \<open>The keys of a list in the order of their first occurrence, after the keys \<open>seen\<close>.\<close>

fun first_seen :: "'a list \<Rightarrow> 'a list \<Rightarrow> 'a list" where
  "first_seen seen [] = seen"
| "first_seen seen (k # ks) = first_seen (if k \<in> set seen then seen else seen @ [k]) ks"

text \<open>A number that is not \<open>NaN\<close> and, when finite, is a binary64 value.\<close>

definition good :: "jsnum \<Rightarrow> bool" where
  "good x = (case x of NaN \<Rightarrow> False | Fin r \<Rightarrow> on_grid r | _ \<Rightarrow> True)"

text \<open>A number that is a whole amount, and the amount.\<close>

definition whole_of :: "jsnum \<Rightarrow> nat" where
  "whole_of x = (case x of Fin r \<Rightarrow> nat \<lfloor>r\<rfloor> | _ \<Rightarrow> 0)"

definition is_whole :: "jsnum \<Rightarrow> bool" where
  "is_whole x = (x = Fin (of_nat (whole_of x)))"

text \<open>Small portfolios for the examples: a position with a profile and no error.\<close>

definition holding :: "string option \<Rightarrow> string \<Rightarrow> AVHolding" where
  "holding s w = \<lparr>symbol = s, description = [], weight = w, assets = []\<rparr>"

definition profile_of :: "string \<Rightarrow> AVHolding list \<Rightarrow> AVSector list \<Rightarrow> EtfProfileData" where
  "profile_of t hs ss =
     \<lparr>etf_symbol = t, name = Some (JStr t), net_assets = [], portfolio_turnover = [],
      net_expense_ratio = [], dividend_yield = [], holdings = Some hs, sectors = Some ss\<rparr>"

definition position ::
  "string \<Rightarrow> jsnum \<Rightarrow> AVHolding list \<Rightarrow> AVSector list \<Rightarrow> PortfolioItem" where
  "position t eq hs ss =
     \<lparr>item_id = t, item_ticker = t, equity = eq, data = Some (profile_of t hs ss),
      isLoading = False, error = None\<rparr>"

text \<open>The name lookup fails: it ends without a matching entry.\<close>

definition search_failed :: "string \<Rightarrow> search_reply \<Rightarrow> bool" where
  "search_failed ticker r = (case search_result ticker r of Match m \<Rightarrow> False | _ \<Rightarrow> True)"

text \<open>The projection of a position that the statistics and the aggregation read.\<close>

definition observed :: "PortfolioItem \<Rightarrow> jsnum \<times> EtfProfileData option \<times> bool" where
  "observed item = (equity item, data item, truthy (error item))"

text \<open>A body without error fields and surroundings for one call, for the examples.\<close>

definition plain_body :: "AVHolding array_field \<Rightarrow> profile_body" where
  "plain_body hs =
     \<lparr>body_error_message = None, body_note = None, body_information = None,
      body_symbol = ''SPY'', body_net_assets = [], body_portfolio_turnover = [],
      body_net_expense_ratio = ''0.0009'', body_dividend_yield = ''0.012'',
      body_holdings = hs, body_sectors = None\<rparr>"

definition plain_env :: "profile_reply \<Rightarrow> search_reply \<Rightarrow> fetch_env" where
  "plain_env p s =
     \<lparr>now_read = 0, profile_answer = p, search_answer = s, now_write = 300,
      write_accepted = True\<rparr>"

section \<open>Rounding\<close>

lemma pow2_pos: "0 < pow2 e"
  by (simp add: pow2_def)

lemma pow2_add: "pow2 (a + b) = pow2 a * pow2 b"
  by (simp add: pow2_def power_int_add)

lemma pow2_mono: "a \<le> b \<Longrightarrow> pow2 a \<le> pow2 b"
  by (simp add: pow2_def power_int_increasing)

lemma pow2_strict_mono: "a < b \<Longrightarrow> pow2 a < pow2 b"
  by (simp add: pow2_def power_int_strict_increasing)

lemma pow2_nat: "0 \<le> e \<Longrightarrow> pow2 e = of_int (2 ^ nat e)"
  by (simp add: pow2_def power_int_nonneg_exp)

lemma ilog2_bounds:
  assumes "0 < q"
  shows "pow2 (ilog2 q) \<le> q \<and> q < pow2 (ilog2 q + 1)"
proof -
  obtain a b where ab: "quotient_of q = (a, b)" by (cases "quotient_of q")
  have bpos: "0 < b" using ab by (rule quotient_of_denom_pos)
  have q: "q = of_int a / of_int b" using ab by (rule quotient_of_div)
  have apos: "0 < a" using assms bpos q by (simp add: zero_less_divide_iff)
  define la where "la = bitlen a"
  define lb where "lb = bitlen b"
  have la1: "1 \<le> la" using apos bitlen_eq_zero_iff[of a] bitlen_nonneg[of a] unfolding la_def by linarith
  have lb1: "1 \<le> lb" using bpos bitlen_eq_zero_iff[of b] bitlen_nonneg[of b] unfolding lb_def by linarith
  have ba: "2 ^ nat (la - 1) \<le> a" "a < 2 ^ nat la"
    using bitlen_bounds[OF apos] by (simp_all add: la_def)
  have bb: "2 ^ nat (lb - 1) \<le> b" "b < 2 ^ nat lb"
    using bitlen_bounds[OF bpos] by (simp_all add: lb_def)
  have ra: "pow2 (la - 1) \<le> of_int a" "(of_int a :: rat) < pow2 la"
    using ba la1 by (simp_all add: pow2_nat of_int_le_iff[symmetric] of_int_less_iff[symmetric] del: of_int_le_iff of_int_less_iff)
  have rb: "pow2 (lb - 1) \<le> of_int b" "(of_int b :: rat) < pow2 lb"
    using bb lb1 by (simp_all add: pow2_nat of_int_le_iff[symmetric] of_int_less_iff[symmetric] del: of_int_le_iff of_int_less_iff)
  have rbpos: "(0::rat) < of_int b" using bpos by simp
  have up: "q < pow2 (la - lb + 1)"
  proof -
    have "of_int a < pow2 (la - lb + 1) * pow2 (lb - 1)"
      using ra(2) by (simp add: pow2_add[symmetric])
    also have "\<dots> \<le> pow2 (la - lb + 1) * of_int b"
      using rb(1) pow2_pos[of "la - lb + 1"] by (simp add: mult_left_mono)
    finally show ?thesis using rbpos by (simp add: q pos_divide_less_eq)
  qed
  have lo: "pow2 (la - lb - 1) < q"
  proof -
    have "pow2 (la - lb - 1) * of_int b < pow2 (la - lb - 1) * pow2 lb"
      using rb(2) pow2_pos[of "la - lb - 1"] by (simp add: mult_strict_left_mono)
    also have "\<dots> = pow2 (la - 1)" by (simp add: pow2_add[symmetric])
    also have "\<dots> \<le> of_int a" by (rule ra(1))
    finally show ?thesis using rbpos by (simp add: q pos_less_divide_eq)
  qed
  show ?thesis
  proof (cases "pow2 (la - lb) \<le> q")
    case True
    then have "ilog2 q = la - lb" by (simp add: ilog2_def ab la_def lb_def Let_def)
    then show ?thesis using True up by simp
  next
    case False
    then have "ilog2 q = la - lb - 1" by (simp add: ilog2_def ab la_def lb_def Let_def)
    then show ?thesis using False lo by simp
  qed
qed

lemma ilog2_unique:
  assumes "pow2 e \<le> q" "q < pow2 (e + 1)"
  shows "ilog2 q = e"
proof -
  have qpos: "0 < q" using assms(1) pow2_pos[of e] by simp
  note b = ilog2_bounds[OF qpos]
  have "\<not> ilog2 q < e"
  proof
    assume "ilog2 q < e"
    then have "pow2 (ilog2 q + 1) \<le> pow2 e" by (simp add: pow2_mono)
    then show False using b assms by simp
  qed
  moreover have "\<not> e < ilog2 q"
  proof
    assume "e < ilog2 q"
    then have "pow2 (e + 1) \<le> pow2 (ilog2 q)" by (simp add: pow2_mono)
    then show False using b assms by simp
  qed
  ultimately show ?thesis by simp
qed

lemma round_even_near:
  assumes "\<bar>x - of_int k\<bar> < 1 / 2"
  shows "round_even x = k"
proof (cases "of_int k \<le> x")
  case True
  then have f: "\<lfloor>x\<rfloor> = k" using assms by (intro floor_unique) auto
  show ?thesis using assms True by (simp add: round_even_def f Let_def)
next
  case False
  then have f: "\<lfloor>x\<rfloor> = k - 1" using assms by (intro floor_unique) auto
  show ?thesis using assms False by (auto simp add: round_even_def f Let_def)
qed

lemma round_even_tie:
  assumes "\<bar>x - of_int k\<bar> = 1 / 2" "even k"
  shows "round_even x = k"
proof (cases "of_int k \<le> x")
  case True
  then have x: "x = of_int k + 1 / 2" using assms(1) by simp
  have f: "\<lfloor>x\<rfloor> = k" using x by (intro floor_unique) auto
  have d: "x - of_int k = 1 / 2" using x by simp
  show ?thesis unfolding round_even_def Let_def f d using assms(2) by simp
next
  case False
  then have x: "x = of_int (k - 1) + 1 / 2" using assms(1) by simp
  have f: "\<lfloor>x\<rfloor> = k - 1" using x by (intro floor_unique) auto
  have d: "x - of_int (k - 1) = 1 / 2" using x by simp
  show ?thesis unfolding round_even_def Let_def f d using assms(2) by simp
qed

lemma round_even_ge_floor: "\<lfloor>x\<rfloor> \<le> round_even x"
  by (simp add: round_even_def Let_def)

lemma round_even_pos: "1 \<le> x \<Longrightarrow> 1 \<le> round_even x"
proof -
  assume "1 \<le> x"
  then have "1 \<le> \<lfloor>x\<rfloor>" by simp
  then show ?thesis using round_even_ge_floor[of x] by linarith
qed

lemma rnd_pos_cert:
  assumes "pow2 e \<le> q" "q < pow2 (e + 1)" "- 1022 \<le> e"
    and "\<bar>q / pow2 (e - 52) - of_int k\<bar> < 1 / 2"
    and "of_int k * pow2 (e - 52) < pow2 1024"
  shows "rnd q = Fin (of_int k * pow2 (e - 52))"
proof -
  have qpos: "0 < q" using assms(1) pow2_pos[of e] by simp
  have e: "ilog2 q = e" using assms(1,2) by (rule ilog2_unique)
  have m: "max e (- 1022) = e" using assms(3) by simp
  have r: "round_even (q / pow2 (e - 52)) = k" using assms(4) by (rule round_even_near)
  show ?thesis using qpos assms(5) by (simp add: rnd_def Let_def e m r)
qed

lemma rnd_pos_tie:
  assumes "pow2 e \<le> q" "q < pow2 (e + 1)" "- 1022 \<le> e"
    and "\<bar>q / pow2 (e - 52) - of_int k\<bar> = 1 / 2" "even k"
    and "of_int k * pow2 (e - 52) < pow2 1024"
  shows "rnd q = Fin (of_int k * pow2 (e - 52))"
proof -
  have qpos: "0 < q" using assms(1) pow2_pos[of e] by simp
  have e: "ilog2 q = e" using assms(1,2) by (rule ilog2_unique)
  have m: "max e (- 1022) = e" using assms(3) by simp
  have r: "round_even (q / pow2 (e - 52)) = k"
    using assms(4,5) by (rule round_even_tie)
  show ?thesis using qpos assms(6) by (simp add: rnd_def Let_def e m r)
qed


lemma on_grid_iff: "on_grid r \<longleftrightarrow> (\<exists>k. r * pow2 1074 = of_int k)"
proof
  assume "on_grid r"
  then have "r * pow2 1074 = of_int \<lfloor>r * pow2 1074\<rfloor>" unfolding on_grid_def by (rule sym)
  then show "\<exists>k. r * pow2 1074 = of_int k" ..
next
  assume "\<exists>k. r * pow2 1074 = of_int k"
  then obtain k where "r * pow2 1074 = of_int k" ..
  then show "on_grid r" unfolding on_grid_def by simp
qed

lemma on_gridI: "r * pow2 1074 = of_int k \<Longrightarrow> on_grid r"
  using on_grid_iff by blast

lemma on_gridD: "on_grid r \<Longrightarrow> r * pow2 1074 = of_int \<lfloor>r * pow2 1074\<rfloor>"
  unfolding on_grid_def by (rule sym)

lemma on_grid_zero: "on_grid 0"
  by (rule on_gridI[of _ 0]) simp

lemma on_grid_minus: "on_grid r \<Longrightarrow> on_grid (- r)"
proof -
  assume "on_grid r"
  then have "r * pow2 1074 = of_int \<lfloor>r * pow2 1074\<rfloor>" by (rule on_gridD)
  then have "(- r) * pow2 1074 = of_int (- \<lfloor>r * pow2 1074\<rfloor>)" by simp
  then show ?thesis by (rule on_gridI)
qed

lemma on_grid_add: "on_grid a \<Longrightarrow> on_grid b \<Longrightarrow> on_grid (a + b)"
proof -
  assume ab: "on_grid a" "on_grid b"
  have "a * pow2 1074 = of_int \<lfloor>a * pow2 1074\<rfloor>" "b * pow2 1074 = of_int \<lfloor>b * pow2 1074\<rfloor>"
    using ab[THEN on_gridD] .
  then have "(a + b) * pow2 1074 = of_int (\<lfloor>a * pow2 1074\<rfloor> + \<lfloor>b * pow2 1074\<rfloor>)"
    by (simp add: distrib_right)
  then show ?thesis by (rule on_gridI)
qed

lemma rnd_grid:
  assumes "rnd q = Fin r"
  shows "on_grid r"
proof (cases "q = 0")
  case True
  then show ?thesis using assms by (auto simp: rnd_def on_grid_zero)
next
  case False
  define e where "e = max (ilog2 \<bar>q\<bar>) (- 1022)"
  define k where "k = round_even (\<bar>q\<bar> / pow2 (e - 52))"
  have e: "- 1022 \<le> e" by (simp add: e_def)
  have "pow2 (e - 52) * pow2 1074 = pow2 (e + 1022)"
    by (simp add: pow2_add[symmetric] add.commute)
  also have "\<dots> = of_int (2 ^ nat (e + 1022))" using e by (simp add: pow2_nat)
  finally have u: "pow2 (e - 52) * pow2 1074 = of_int (2 ^ nat (e + 1022))" .
  have g: "on_grid (of_int k * pow2 (e - 52))"
  proof (rule on_gridI)
    show "of_int k * pow2 (e - 52) * pow2 1074 = of_int (k * 2 ^ nat (e + 1022))"
      using u by (simp add: mult.assoc)
  qed
  have "r = of_int k * pow2 (e - 52) \<or> r = - (of_int k * pow2 (e - 52))"
    using assms False by (auto simp: rnd_def Let_def e_def k_def split: if_splits)
  then show ?thesis using g on_grid_minus by auto
qed

lemma rnd_sign:
  assumes "on_grid q"
  shows "js_sign (rnd q) = (if 0 < q then 1 else if q < 0 then - 1 else 0)"
proof (cases "q = 0")
  case True
  then show ?thesis by (simp add: rnd_def)
next
  case False
  define a where "a = \<bar>q\<bar>"
  define e where "e = max (ilog2 a) (- 1022)"
  define u where "u = pow2 (e - 52)"
  define k where "k = round_even (a / u)"
  have apos: "0 < a" using False by (simp add: a_def)
  have upos: "0 < u" by (simp add: u_def pow2_pos)
  have ag: "on_grid a" using assms on_grid_minus[of q] by (auto simp: a_def abs_if)
  have a1: "pow2 (- 1074) \<le> a"
  proof -
    have eq: "a * pow2 1074 = of_int \<lfloor>a * pow2 1074\<rfloor>" using ag by (rule on_gridD)
    have "0 < a * pow2 1074" using apos pow2_pos[of 1074] by simp
    then have "(0::rat) < of_int \<lfloor>a * pow2 1074\<rfloor>" using eq by simp
    then have "1 \<le> \<lfloor>a * pow2 1074\<rfloor>" by simp
    then have "(1::rat) \<le> of_int \<lfloor>a * pow2 1074\<rfloor>" by (simp only: of_int_1_le_iff)
    then have "1 \<le> a * pow2 1074" using eq by simp
    then have "pow2 (- 1074) * 1 \<le> pow2 (- 1074) * (a * pow2 1074)"
      using pow2_pos[of "- 1074"] by (intro mult_left_mono) auto
    moreover have "pow2 (- 1074) * pow2 1074 = 1" by (simp add: pow2_add[symmetric] pow2_def)
    ultimately show ?thesis by (simp add: mult.left_commute)
  qed
  have ge1: "1 \<le> a / u"
  proof (cases "- 1022 \<le> ilog2 a")
    case True
    then have "e = ilog2 a" by (simp add: e_def)
    then have "pow2 e \<le> a" using ilog2_bounds[OF apos] by simp
    moreover have "u \<le> pow2 e" by (simp add: u_def pow2_mono)
    ultimately have "u \<le> a" by simp
    then show ?thesis using upos by (simp add: pos_le_divide_eq)
  next
    case False
    then have "e = - 1022" by (simp add: e_def)
    then have "u = pow2 (- 1074)" by (simp add: u_def)
    then show ?thesis using a1 upos by (simp add: pos_le_divide_eq)
  qed
  have kpos: "1 \<le> k" using ge1 by (simp add: k_def round_even_pos)
  then have rpos: "0 < of_int k * u" using upos by simp
  show ?thesis
    using False rpos
    by (auto simp: rnd_def Let_def a_def[symmetric] e_def[symmetric] u_def[symmetric] k_def[symmetric])
qed



lemma rnd_minus: "rnd (- q) = js_neg (rnd q)"
  by (simp add: rnd_def Let_def)

lemma rnd_nat_exact:
  assumes "n < 2 ^ 53"
  shows "rnd (of_nat n) = Fin (of_nat n)"
proof (cases "n = 0")
  case True
  then show ?thesis by (simp add: rnd_def)
next
  case False
  define q :: rat where "q = of_nat n"
  have qpos: "0 < q" using False by (simp add: q_def)
  define e where "e = ilog2 q"
  have b: "pow2 e \<le> q" "q < pow2 (e + 1)" using ilog2_bounds[OF qpos] by (simp_all add: e_def)
  have q1: "1 \<le> q" using False by (simp add: q_def)
  have q53: "q < pow2 53"
  proof -
    have "(of_nat n :: rat) < of_nat (2 ^ 53)" using assms by (simp only: of_nat_less_iff)
    then show ?thesis by (simp add: q_def pow2_def)
  qed
  have e0: "0 \<le> e"
  proof (rule ccontr)
    assume "\<not> 0 \<le> e"
    then have "pow2 (e + 1) \<le> pow2 0" by (intro pow2_mono) simp
    then show False using b(2) q1 by (simp add: pow2_def)
  qed
  have e52: "e \<le> 52"
  proof (rule ccontr)
    assume "\<not> e \<le> 52"
    then have "pow2 53 \<le> pow2 e" by (intro pow2_mono) simp
    then show False using b(1) q53 by simp
  qed
  have "pow2 (e - 52) * pow2 (52 - e) = pow2 ((e - 52) + (52 - e))" by (simp only: pow2_add)
  then have u: "pow2 (e - 52) * pow2 (52 - e) = 1" by (simp add: pow2_def)
  have p: "pow2 (52 - e) = of_nat (2 ^ nat (52 - e))" using e52 by (simp add: pow2_nat)
  have "q / pow2 (e - 52) = q * pow2 (52 - e)"
    using u pow2_pos[of "e - 52"] by (simp add: field_simps)
  also have "\<dots> = of_int (int (n * 2 ^ nat (52 - e)))" by (simp add: q_def p)
  finally have m: "q / pow2 (e - 52) = of_int (int (n * 2 ^ nat (52 - e)))" .
  have bk: "of_int (int (n * 2 ^ nat (52 - e))) * pow2 (e - 52) = q"
    using m pow2_pos[of "e - 52"] by (simp add: field_simps)
  have "rnd q = Fin (of_int (int (n * 2 ^ nat (52 - e))) * pow2 (e - 52))"
  proof (rule rnd_pos_cert[OF b])
    show "- 1022 \<le> e" using e0 by simp
    show "\<bar>q / pow2 (e - 52) - of_int (int (n * 2 ^ nat (52 - e)))\<bar> < 1 / 2" by (simp add: m)
    have "q < pow2 1024" using q53 pow2_strict_mono[of 53 1024] by simp
    then show "of_int (int (n * 2 ^ nat (52 - e))) * pow2 (e - 52) < pow2 1024" by (simp only: bk)
  qed
  then show ?thesis by (simp only: bk) (simp add: q_def)
qed

section \<open>Whole numbers of milliseconds\<close>







section \<open>The statistics loop\<close>

lemma stats_step_skip: "\<not> contributes item \<Longrightarrow> stats_step a item = a"
  by (auto simp: contributes_def stats_step_def split: option.splits)

lemma stats_step_totalEquity:
  "contributes item \<Longrightarrow>
   acc_totalEquity (stats_step a item) = js_add (acc_totalEquity a) (equity item)"
  by (auto simp: contributes_def stats_step_def Let_def split: option.splits)

lemma stats_step_count:
  "contributes item \<Longrightarrow>
   acc_validItemsCount (stats_step a item) = acc_validItemsCount a + 1"
  by (auto simp: contributes_def stats_step_def Let_def split: option.splits)

lemma foldl_stats_totalEquity:
  "acc_totalEquity (foldl stats_step a p) =
   foldl js_add (acc_totalEquity a) (map equity (filter contributes p))"
proof (induction p arbitrary: a)
  case Nil
  show ?case by simp
next
  case (Cons item p)
  show ?case
  proof (cases "contributes item")
    case True
    then show ?thesis using Cons[of "stats_step a item"] by (simp add: stats_step_totalEquity)
  next
    case False
    then show ?thesis using Cons[of a] by (simp add: stats_step_skip)
  qed
qed

lemma foldl_stats_count:
  "acc_validItemsCount (foldl stats_step a p) =
   acc_validItemsCount a + length (filter contributes p)"
proof (induction p arbitrary: a)
  case Nil
  show ?case by simp
next
  case (Cons item p)
  show ?case
  proof (cases "contributes item")
    case True
    then show ?thesis using Cons[of "stats_step a item"] by (simp add: stats_step_count)
  next
    case False
    then show ?thesis using Cons[of a] by (simp add: stats_step_skip)
  qed
qed

lemma stats_totalEquity:
  "totalEquity (stats p) = js_sum (map equity (filter contributes p))"
  by (simp add: stats_def stats_with_def Let_def foldl_stats_totalEquity js_sum_def)

lemma stats_hasData: "hasData (stats p) = (filter contributes p \<noteq> [])"
  by (simp add: stats_def stats_with_def Let_def foldl_stats_count)

lemma stats_avg_zero:
  "\<not> js_gt (totalEquity (stats p)) (Fin 0) \<Longrightarrow>
   avgExpenseRatio (stats p) = Fin 0 \<and> avgDividendYield (stats p) = Fin 0"
  by (simp add: stats_def stats_with_def Let_def)

lemma percent_of_zero: "\<not> js_gt te (Fin 0) \<Longrightarrow> percent_of te v = Fin 0"
  by (simp add: percent_of_def percent_with_def)

lemma js_gt_nonzero: "js_gt x (Fin 0) \<Longrightarrow> x \<noteq> Fin 0"
  by (auto simp: js_gt_def)

section \<open>The merge map\<close>

lemma map_get_map_set:
  "map_get (map_set k v m) k' = (if k' = k then Some v else map_get m k')"
  by (induction m) (auto simp: map_get_def)

lemma keys_map_set:
  "map fst (map_set k v m) = (if k \<in> set (map fst m) then map fst m else map fst m @ [k])"
proof (induction m)
  case Nil
  show ?case by simp
next
  case (Cons e m)
  show ?case
  proof (cases "fst e = k")
    case True
    then show ?thesis by (cases e) simp
  next
    case False
    then show ?thesis using Cons by (cases e) auto
  qed
qed

lemma bucket_value_holding_step:
  "bucket_value (holding_step eq m h) k =
     (if holding_key h = k then js_add (bucket_value m k) (holding_value eq h)
      else bucket_value m k)"
  by (auto simp: bucket_value_def holding_step_def Let_def map_get_map_set holding_value_def
           split: option.splits)

lemma keys_holding_step:
  "map fst (holding_step eq m h) =
     (if holding_key h \<in> set (map fst m) then map fst m else map fst m @ [holding_key h])"
  by (simp add: holding_step_def Let_def keys_map_set)

lemma bucket_value_foldl_holdings:
  "bucket_value (foldl (holding_step eq) m hs) k =
     foldl js_add (bucket_value m k)
       (map (holding_value eq) (filter (\<lambda>h. holding_key h = k) hs))"
  by (induction hs arbitrary: m) (simp_all add: bucket_value_holding_step)

lemma keys_foldl_holdings:
  "map fst (foldl (holding_step eq) m hs) = first_seen (map fst m) (map holding_key hs)"
  by (induction hs arbitrary: m) (simp_all add: keys_holding_step)

lemma item_step_skip: "\<not> aggregates item \<Longrightarrow> item_step maps item = maps"
  by (auto simp: aggregates_def item_step_def split: option.splits)

lemma fst_item_step:
  "aggregates item \<Longrightarrow>
   fst (item_step maps item) = foldl (holding_step (equity item)) (fst maps) (item_holdings item)"
  by (auto simp: aggregates_def item_step_def item_holdings_def split: option.splits)

lemma first_seen_append: "first_seen seen (ks @ ks') = first_seen (first_seen seen ks) ks'"
  by (induction ks arbitrary: seen) simp_all

lemma filter_key_map:
  "map snd (filter (\<lambda>c. fst c = k) (map (\<lambda>h. (holding_key h, holding_value eq h)) hs)) =
   map (holding_value eq) (filter (\<lambda>h. holding_key h = k) hs)"
  by (induction hs) simp_all

lemma bucket_value_foldl_items:
  "bucket_value (fst (foldl item_step maps p)) k =
     foldl js_add (bucket_value (fst maps) k)
       (map snd (filter (\<lambda>c. fst c = k) (contributions p)))"
proof (induction p arbitrary: maps)
  case Nil
  show ?case by (simp add: contributions_def)
next
  case (Cons item p)
  show ?case
  proof (cases "aggregates item")
    case True
    have c: "contributions (item # p) =
        map (\<lambda>h. (holding_key h, holding_value (equity item) h)) (item_holdings item) @
        contributions p"
      using True by (simp add: contributions_def)
    show ?thesis
      using Cons[of "item_step maps item"] True
      by (simp add: c fst_item_step bucket_value_foldl_holdings filter_key_map)
  next
    case False
    then have "contributions (item # p) = contributions p" by (simp add: contributions_def)
    then show ?thesis using Cons[of maps] False by (simp add: item_step_skip)
  qed
qed

lemma keys_foldl_items:
  "map fst (fst (foldl item_step maps p)) =
     first_seen (map fst (fst maps)) (map fst (contributions p))"
proof (induction p arbitrary: maps)
  case Nil
  show ?case by (simp add: contributions_def)
next
  case (Cons item p)
  show ?case
  proof (cases "aggregates item")
    case True
    have c: "map fst (contributions (item # p)) =
        map holding_key (item_holdings item) @ map fst (contributions p)"
      using True by (simp add: contributions_def comp_def)
    show ?thesis
      using Cons[of "item_step maps item"] True
      by (simp add: c fst_item_step keys_foldl_holdings first_seen_append)
  next
    case False
    then have "contributions (item # p) = contributions p" by (simp add: contributions_def)
    then show ?thesis using Cons[of maps] False by (simp add: item_step_skip)
  qed
qed

lemma first_seen_distinct: "distinct seen \<Longrightarrow> distinct (first_seen seen ks)"
  by (induction ks arbitrary: seen) simp_all

lemma set_first_seen: "set (first_seen seen ks) = set seen \<union> set ks"
  by (induction ks arbitrary: seen) auto

lemma merged_bucket_value:
  "bucket_value (fst (merged_maps p)) k =
     js_sum (map snd (filter (\<lambda>c. fst c = k) (contributions p)))"
proof -
  have "bucket_value (fst ([], [])) k = Fin 0" by (simp add: bucket_value_def map_get_def)
  then show ?thesis
    unfolding merged_maps_def js_sum_def bucket_value_foldl_items by simp
qed

lemma merged_keys:
  "map fst (fst (merged_maps p)) = first_seen [] (map fst (contributions p))"
  by (simp add: merged_maps_def keys_foldl_items)

lemma merged_keys_distinct: "distinct (map fst (fst (merged_maps p)))"
  by (simp add: merged_keys first_seen_distinct)

section \<open>Sorting\<close>

lemma rnd_not_NaN: "rnd q \<noteq> NaN"
  by (simp add: rnd_def Let_def)

lemma good_rnd: "good (rnd q)"
proof (cases "rnd q")
  case (Fin r)
  then show ?thesis using rnd_grid[of q r] by (simp add: good_def)
qed (simp_all add: good_def rnd_not_NaN)

lemma js_add_good: "js_add x y \<noteq> NaN \<Longrightarrow> good (js_add x y)"
  by (cases x; cases y) (simp_all add: good_rnd, simp_all add: good_def)

lemma js_gt_zero_sign: "js_gt x (Fin 0) \<longleftrightarrow> js_sign x = 1"
  by (cases x) (simp_all add: js_gt_def)

lemma cmp_sign:
  assumes "good x" "good y"
  shows "js_gt (js_sub x y) (Fin 0) \<longleftrightarrow> js_lt y x"
proof (cases x)
  case NaN
  then show ?thesis using assms by (simp add: good_def)
next
  case PInf
  then show ?thesis using assms by (cases y) (simp_all add: good_def js_sub_def js_gt_def)
next
  case NInf
  then show ?thesis using assms by (cases y) (simp_all add: good_def js_sub_def js_gt_def)
next
  case (Fin a)
  show ?thesis
  proof (cases y)
    case (Fin b)
    have "on_grid (a - b)"
      using assms \<open>x = Fin a\<close> Fin on_grid_add[of a "- b"] on_grid_minus[of b]
      by (simp add: good_def)
    then show ?thesis
      using \<open>x = Fin a\<close> Fin rnd_sign[of "a - b"]
      by (simp add: js_gt_zero_sign js_sub_def)
  qed (use assms \<open>x = Fin a\<close> in \<open>simp_all add: good_def js_sub_def js_gt_def\<close>)
qed

lemma sub_self_not_pos: "\<not> js_gt (js_sub x x) (Fin 0)"
  by (cases x) (simp_all add: js_sub_def js_gt_def rnd_def)

lemma js_lt_asym: "js_lt x y \<Longrightarrow> \<not> js_lt y x"
  by (cases x; cases y) simp_all

lemma js_le_trans:
  "x \<noteq> NaN \<Longrightarrow> y \<noteq> NaN \<Longrightarrow> z \<noteq> NaN \<Longrightarrow>
   \<not> js_lt y x \<Longrightarrow> \<not> js_lt z y \<Longrightarrow> \<not> js_lt z x"
  by (cases x; cases y; cases z) simp_all

lemma js_ge_iff: "x \<noteq> NaN \<Longrightarrow> y \<noteq> NaN \<Longrightarrow> js_ge x y \<longleftrightarrow> \<not> js_lt x y"
  by (cases x; cases y) simp_all

lemma set_sort_insert: "set (sort_insert cmp x ys) = insert x (set ys)"
  by (induction ys) auto

lemma set_foldl_sort_insert:
  "set (foldl (\<lambda>acc x. sort_insert cmp x acc) acc xs) = set acc \<union> set xs"
  by (induction xs arbitrary: acc) (auto simp: set_sort_insert)

lemma set_js_sort: "set (js_sort cmp xs) = set xs"
  by (simp add: js_sort_def set_foldl_sort_insert)

lemma length_sort_insert: "length (sort_insert cmp x ys) = Suc (length ys)"
  by (induction ys) auto

lemma filter_sort_insert:
  assumes "\<And>a b. js_gt (cmp a b) (Fin 0) \<Longrightarrow> \<not> (Q a \<and> Q b)"
  shows "filter Q (sort_insert cmp x ys) = filter Q (x # ys)"
proof (induction ys)
  case Nil
  show ?case by simp
next
  case (Cons y ys)
  show ?case
  proof (cases "js_gt (cmp y x) (Fin 0)")
    case True
    then have "\<not> (Q y \<and> Q x)" by (rule assms)
    then show ?thesis using True Cons by auto
  next
    case False
    then show ?thesis by simp
  qed
qed

lemma filter_foldl_sort_insert:
  assumes "\<And>a b. js_gt (cmp a b) (Fin 0) \<Longrightarrow> \<not> (Q a \<and> Q b)"
  shows "filter Q (foldl (\<lambda>acc x. sort_insert cmp x acc) acc xs) =
         rev (filter Q xs) @ filter Q acc"
proof (induction xs arbitrary: acc)
  case Nil
  show ?case by simp
next
  case (Cons x xs)
  show ?case
    using Cons[of "sort_insert cmp x acc"] filter_sort_insert[of cmp Q x acc, OF assms]
    by simp
qed

lemma filter_js_sort:
  assumes "\<And>a b. js_gt (cmp a b) (Fin 0) \<Longrightarrow> \<not> (Q a \<and> Q b)"
  shows "filter Q (js_sort cmp xs) = filter Q xs"
  using filter_foldl_sort_insert[of cmp Q "[]" xs, OF assms]
  by (simp add: js_sort_def rev_filter[symmetric])

text \<open>
  Stability, where the comparator \<open>b - a\<close> is consistent: no key is \<open>NaN\<close>.
\<close>

lemma js_sort_stable:
  assumes "\<forall>y\<in>set xs. good (key y)"
  shows "filter (\<lambda>a. key a = v) (js_sort (\<lambda>a b. js_sub (key b) (key a)) xs) =
         filter (\<lambda>a. key a = v) xs"
proof (rule filter_js_sort)
  fix a b
  assume "js_gt (js_sub (key b) (key a)) (Fin 0)"
  then show "\<not> (key a = v \<and> key b = v)" using sub_self_not_pos[of v] by auto
qed

lemma sorted_sort_insert:
  assumes g: "good (key x)" "\<forall>y\<in>set ys. good (key y)"
    and s: "sorted_wrt (\<lambda>a b. \<not> js_lt (key b) (key a)) ys"
  shows "sorted_wrt (\<lambda>a b. \<not> js_lt (key b) (key a))
           (sort_insert (\<lambda>a b. js_sub (key b) (key a)) x ys)"
  using g(2) s
proof (induction ys)
  case Nil
  show ?case by simp
next
  case (Cons y ys)
  have gy: "good (key y)" using Cons.prems(1) by simp
  have c: "js_gt (js_sub (key x) (key y)) (Fin 0) \<longleftrightarrow> js_lt (key y) (key x)"
    using g(1) gy by (rule cmp_sign)
  show ?case
  proof (cases "js_lt (key y) (key x)")
    case True
    have "sorted_wrt (\<lambda>a b. \<not> js_lt (key b) (key a))
            (sort_insert (\<lambda>a b. js_sub (key b) (key a)) x ys)"
      using Cons by simp
    moreover have "\<not> js_lt (key x) (key y)" using True by (rule js_lt_asym)
    ultimately show ?thesis using True c Cons.prems(2) by (auto simp: set_sort_insert)
  next
    case False
    have "\<forall>z\<in>set ys. \<not> js_lt (key z) (key x)"
    proof
      fix z assume z: "z \<in> set ys"
      have "\<not> js_lt (key z) (key y)" using Cons.prems(2) z by simp
      moreover have "key x \<noteq> NaN" "key y \<noteq> NaN" "key z \<noteq> NaN"
        using g(1) gy Cons.prems(1) z by (auto simp: good_def)
      ultimately show "\<not> js_lt (key z) (key x)" using False js_le_trans by blast
    qed
    then show ?thesis using False c Cons.prems(2) by simp
  qed
qed

lemma sorted_foldl_sort_insert:
  assumes "\<forall>y\<in>set acc \<union> set xs. good (key y)"
    and "sorted_wrt (\<lambda>a b. \<not> js_lt (key b) (key a)) acc"
  shows "sorted_wrt (\<lambda>a b. \<not> js_lt (key b) (key a))
           (foldl (\<lambda>acc x. sort_insert (\<lambda>a b. js_sub (key b) (key a)) x acc) acc xs)"
  using assms
proof (induction xs arbitrary: acc)
  case Nil
  then show ?case by simp
next
  case (Cons x xs)
  have "sorted_wrt (\<lambda>a b. \<not> js_lt (key b) (key a))
          (sort_insert (\<lambda>a b. js_sub (key b) (key a)) x acc)"
    using Cons.prems by (intro sorted_sort_insert) auto
  moreover have "\<forall>y\<in>set (sort_insert (\<lambda>a b. js_sub (key b) (key a)) x acc) \<union> set xs. good (key y)"
    using Cons.prems(1) by (auto simp: set_sort_insert)
  ultimately show ?case using Cons.IH by simp
qed

lemma js_sort_sorted:
  assumes "\<forall>y\<in>set xs. good (key y)"
  shows "sorted_wrt (\<lambda>a b. js_ge (key a) (key b)) (js_sort (\<lambda>a b. js_sub (key b) (key a)) xs)"
proof -
  let ?ys = "foldl (\<lambda>acc x. sort_insert (\<lambda>a b. js_sub (key b) (key a)) x acc) [] xs"
  have "sorted_wrt (\<lambda>a b. \<not> js_lt (key b) (key a)) ?ys"
    using assms by (intro sorted_foldl_sort_insert) auto
  then have "sorted_wrt (\<lambda>a b. \<not> js_lt (key a) (key b)) (rev ?ys)"
    by (simp add: sorted_wrt_rev)
  moreover have "\<forall>y\<in>set (rev ?ys). key y \<noteq> NaN"
    using assms by (auto simp: set_foldl_sort_insert good_def)
  ultimately have "sorted_wrt (\<lambda>a b. js_ge (key a) (key b)) (rev ?ys)"
    by (auto intro!: sorted_wrt_mono_rel[where P = "\<lambda>a b. \<not> js_lt (key a) (key b)"] simp: js_ge_iff)
  then show ?thesis by (simp add: js_sort_def)
qed

lemma js_ge_antisym: "js_ge x y \<Longrightarrow> js_ge y x \<Longrightarrow> x = y"
  by (cases x; cases y) auto

lemma stable_sorted_unique:
  assumes "sorted_wrt (\<lambda>a b. js_ge (key a) (key b)) ys"
    and "sorted_wrt (\<lambda>a b. js_ge (key a) (key b)) zs"
    and "\<And>v. filter (\<lambda>a. key a = v) ys = filter (\<lambda>a. key a = v) zs"
  shows "ys = zs"
  using assms
proof (induction ys arbitrary: zs)
  case Nil
  have "filter (\<lambda>a. key a = key z) zs = []" for z using Nil.prems(3)[of "key z"] by simp
  then have "z \<notin> set zs" for z by (auto simp: filter_empty_conv)
  then show ?case by (cases zs) auto
next
  case (Cons y ys)
  have "filter (\<lambda>a. key a = key y) zs \<noteq> []" using Cons.prems(3)[of "key y"] by auto
  then obtain z zs' where zs: "zs = z # zs'" by (cases zs) auto
  have yin: "y \<in> set zs"
  proof -
    have "y \<in> set (filter (\<lambda>a. key a = key y) (y # ys))" by simp
    then show ?thesis unfolding Cons.prems(3)[of "key y"] by simp
  qed
  have zin: "z \<in> set (y # ys)"
  proof -
    have "z \<in> set (filter (\<lambda>a. key a = key z) zs)" by (simp add: zs)
    then have "z \<in> set (filter (\<lambda>a. key a = key z) (y # ys))"
      unfolding Cons.prems(3)[of "key z", symmetric] .
    then show ?thesis by (auto split: if_splits)
  qed
  have yz: "y = z"
  proof (rule ccontr)
    assume n: "y \<noteq> z"
    have "js_ge (key y) (key z)" using zin n Cons.prems(1) by auto
    moreover have "js_ge (key z) (key y)" using yin n Cons.prems(2) by (auto simp: zs)
    ultimately have k: "key y = key z" by (rule js_ge_antisym)
    then show False using Cons.prems(3)[of "key y"] n by (simp add: zs)
  qed
  have "filter (\<lambda>a. key a = v) ys = filter (\<lambda>a. key a = v) zs'" for v
    using Cons.prems(3)[of v] by (simp add: zs yz split: if_splits)
  moreover have "sorted_wrt (\<lambda>a b. js_ge (key a) (key b)) ys" using Cons.prems(1) by simp
  moreover have "sorted_wrt (\<lambda>a b. js_ge (key a) (key b)) zs'" using Cons.prems(2) by (simp add: zs)
  ultimately have "ys = zs'" by (intro Cons.IH)
  then show ?case by (simp add: zs yz)
qed

text \<open>
  With no key \<open>NaN\<close> the result of \<open>js_sort\<close> is the only arrangement that is sorted,
  largest first, and keeps the elements of every one key in their order: the model and
  a stable sort of an engine cannot differ there.
\<close>

lemma js_sort_unique:
  assumes "\<forall>y\<in>set xs. good (key y)"
    and "sorted_wrt (\<lambda>a b. js_ge (key a) (key b)) ys"
    and "\<And>v. filter (\<lambda>a. key a = v) ys = filter (\<lambda>a. key a = v) xs"
  shows "ys = js_sort (\<lambda>a b. js_sub (key b) (key a)) xs"
proof (rule stable_sorted_unique)
  show "sorted_wrt (\<lambda>a b. js_ge (key a) (key b)) ys" by (rule assms(2))
  show "sorted_wrt (\<lambda>a b. js_ge (key a) (key b)) (js_sort (\<lambda>a b. js_sub (key b) (key a)) xs)"
    using assms(1) by (rule js_sort_sorted)
  show "filter (\<lambda>a. key a = v) ys =
        filter (\<lambda>a. key a = v) (js_sort (\<lambda>a b. js_sub (key b) (key a)) xs)" for v
    using assms(1) assms(3)[of v] by (simp add: js_sort_stable)
qed

text \<open>
  A list of two or more elements with a key \<open>NaN\<close> is not sorted, in whatever order
  it is.
\<close>

lemma not_sorted_NaN:
  assumes "x \<in> set xs" "key x = NaN" "2 \<le> length xs"
  shows "\<not> sorted_wrt (\<lambda>a b. js_ge (key a) (key b)) xs"
proof
  assume s: "sorted_wrt (\<lambda>a b. js_ge (key a) (key b)) xs"
  obtain i where i: "i < length xs" "xs ! i = x" using assms(1) by (auto simp: in_set_conv_nth)
  show False
  proof (cases "i = 0")
    case True
    have "js_ge (key (xs ! 0)) (key (xs ! 1))"
      using s sorted_wrt_nth_less[of _ xs 0 1] assms(3) by auto
    then show False using i True assms(2) by simp
  next
    case False
    then have "js_ge (key (xs ! 0)) (key (xs ! i))"
      using s i sorted_wrt_nth_less[of _ xs 0 i] by auto
    then show False using i assms(2) by (cases "key (xs ! 0)") simp_all
  qed
qed

section \<open>The AAPL scenario\<close>

lemma parse_007: "parseFloat ''0.07'' = Fin (5044031582654956 / 72057594037927936)"
proof -
  have "parseFloat ''0.07'' = rnd (7 / 100)"
    by (simp add: parseFloat_def is_digit_def is_space_def digits_value_def exponent_part_def)
  also have "\<dots> = Fin (5044031582654956 / 72057594037927936)"
    using rnd_pos_cert[of "- 4" "7 / 100" 5044031582654956] by (simp add: pow2_def)
  finally show ?thesis .
qed

lemma parse_010: "parseFloat ''0.10'' = Fin (7205759403792794 / 72057594037927936)"
proof -
  have "parseFloat ''0.10'' = rnd (1 / 10)"
    by (simp add: parseFloat_def is_digit_def is_space_def digits_value_def exponent_part_def)
  also have "\<dots> = Fin (7205759403792794 / 72057594037927936)"
    using rnd_pos_cert[of "- 4" "1 / 10" 7205759403792794] by (simp add: pow2_def)
  finally show ?thesis .
qed

lemma spy_value: "js_mul (Fin 10000) (Fin (5044031582654956 / 72057594037927936)) = Fin (6157265115545601 / 8796093022208)"
  using rnd_pos_cert[of 9 "10000 * (5044031582654956 / 72057594037927936)" 6157265115545601]
  by (simp add: pow2_def)

lemma qqq_value: "js_mul (Fin 5000) (Fin (7205759403792794 / 72057594037927936)) = Fin 500"
  using rnd_pos_cert[of 8 "5000 * (7205759403792794 / 72057594037927936)" 8796093022208000]
  by (simp add: pow2_def)

lemma first_sum: "js_add (Fin 0) (Fin (6157265115545601 / 8796093022208)) = Fin (6157265115545601 / 8796093022208)"
  using rnd_pos_cert[of 9 "6157265115545601 / 8796093022208" 6157265115545601]
  by (simp add: pow2_def)

lemma second_sum: "js_add (Fin (6157265115545601 / 8796093022208)) (Fin 500) = Fin 1200"
  using rnd_pos_tie[of 10 "6157265115545601 / 8796093022208 + 500" 5277655813324800]
  by (simp add: pow2_def)

lemma equity_sum: "js_add (js_add (Fin 0) (Fin 10000)) (Fin 5000) = Fin 15000"
  using rnd_nat_exact[of 10000] rnd_nat_exact[of 15000] by simp

lemma ratio: "js_div (Fin 1200) (Fin 15000) = Fin (5764607523034235 / 72057594037927936)"
  using rnd_pos_cert[of "- 4" "1200 / 15000" 5764607523034235]
  by (simp add: pow2_def)

lemma pct: "js_mul (Fin (5764607523034235 / 72057594037927936)) (Fin 100) = Fin 8"
  using rnd_pos_cert[of 3 "5764607523034235 / 72057594037927936 * 100" 4503599627370496]
  by (simp add: pow2_def)


lemma holding_key_plain:
  "symbol h = Some s \<Longrightarrow> s \<noteq> [] \<Longrightarrow> s \<noteq> ''N/A'' \<Longrightarrow> s \<noteq> ''-'' \<Longrightarrow> holding_key h = s"
  by (simp add: holding_key_def is_cash_def)

lemma singleton_map:
  assumes "map fst m = [k]"
  shows "\<exists>e. m = [(k, e)]"
  using assms by (cases m) auto

lemma js_sort_single: "js_sort cmp [x] = [x]"
  by (simp add: js_sort_def)

lemma map_get_single: "map_get [(k, e)] k = Some e"
  by (simp add: map_get_def)

text \<open>
  Claim C9. Two positions that take part: SPY with equity 10000 and the one holding
  AAPL of weight \<open>0.07\<close>, QQQ with equity 5000 and the one holding AAPL of weight
  \<open>0.10\<close>. Whatever the other fields of the positions are, \<open>aggregateHoldings\<close> returns
  one entry, for AAPL, with \<open>totalValue\<close> exactly 1200 and \<open>percentageOfPortfolio\<close>
  exactly 8. The numbers are those of binary64 arithmetic: \<open>10000 * 0.07\<close> is
  \<open>700 + 2^-43\<close>, and adding 500 to it rounds (a tie, to the even significand) to 1200.
\<close>

theorem C9_aapl_scenario:
  assumes "equity spy = Fin 10000" "data spy = Some d1" "\<not> truthy (error spy)"
    and "holdings d1 = Some [h1]" "symbol h1 = Some ''AAPL''" "weight h1 = ''0.07''"
    and "equity qqq = Fin 5000" "data qqq = Some d2" "\<not> truthy (error qqq)"
    and "holdings d2 = Some [h2]" "symbol h2 = Some ''AAPL''" "weight h2 = ''0.10''"
  shows "map (\<lambda>a. (holding_ticker a, totalValue a, percentageOfPortfolio a))
           (aggregateHoldings [spy, qqq]) = [(''AAPL'', Fin 1200, Fin 8)]"
proof -
  let ?p = "[spy, qqq]"
  have k1: "holding_key h1 = ''AAPL''" using assms(5) by (simp add: holding_key_plain)
  have k2: "holding_key h2 = ''AAPL''" using assms(11) by (simp add: holding_key_plain)
  have v1: "holding_value (equity spy) h1 = Fin (6157265115545601 / 8796093022208)"
    by (simp only: holding_value_def assms(1,6) parse_007 spy_value)
  have v2: "holding_value (equity qqq) h2 = Fin 500"
    by (simp only: holding_value_def assms(7,12) parse_010 qqq_value)
  have ag: "aggregates spy" "aggregates qqq"
    using assms by (simp_all add: aggregates_def)
  have ih: "item_holdings spy = [h1]" "item_holdings qqq = [h2]"
    using assms by (simp_all add: item_holdings_def)
  have c: "contributions ?p =
      [(''AAPL'', Fin (6157265115545601 / 8796093022208)), (''AAPL'', Fin 500)]"
    by (simp add: contributions_def ag ih k1 k2 v1 v2)
  have "map fst (fst (merged_maps ?p)) = [''AAPL'']"
    by (simp add: merged_keys c)
  then have "\<exists>e. fst (merged_maps ?p) = [(''AAPL'', e)]" by (rule singleton_map)
  then obtain e where m: "fst (merged_maps ?p) = [(''AAPL'', e)]" ..
  have f: "map snd (filter (\<lambda>c. fst c = ''AAPL'') (contributions ?p)) =
      [Fin (6157265115545601 / 8796093022208), Fin 500]"
    by (simp add: c)
  have "bucket_value (fst (merged_maps ?p)) ''AAPL'' = Fin 1200"
    by (simp only: merged_bucket_value f js_sum_def first_sum second_sum foldl.simps)
  then have ev: "entry_value e = Fin 1200"
    by (simp add: m bucket_value_def map_get_single)
  have co: "contributes spy" "contributes qqq" using assms by (simp_all add: contributes_def)
  have "map equity (filter contributes ?p) = [Fin 10000, Fin 5000]"
    by (simp add: co assms(1,7))
  then have te: "totalEquity (stats ?p) = Fin 15000"
    by (simp only: stats_totalEquity js_sum_def equity_sum foldl.simps)
  have pc: "percent_of (Fin 15000) (Fin 1200) = Fin 8"
proof -
    have "js_gt (Fin 15000) (Fin 0)" by (simp add: js_gt_def)
    then show ?thesis by (simp only: percent_of_def percent_with_def ratio pct if_True)
  qed
  show ?thesis
    by (simp add: aggregateHoldings_def m te js_sort_single to_holding_def ev pc)
qed

theorem C9_aapl_scenario_witness:
  "map (\<lambda>a. (holding_ticker a, totalValue a, percentageOfPortfolio a))
     (aggregateHoldings
        [position ''SPY'' (Fin 10000) [holding (Some ''AAPL'') ''0.07''] [],
         position ''QQQ'' (Fin 5000) [holding (Some ''AAPL'') ''0.10''] []])
   = [(''AAPL'', Fin 1200, Fin 8)]"
  by (rule C9_aapl_scenario
           [where ?d1.0 = "profile_of ''SPY'' [holding (Some ''AAPL'') ''0.07''] []"
              and ?h1.0 = "holding (Some ''AAPL'') ''0.07''"
              and ?d2.0 = "profile_of ''QQQ'' [holding (Some ''AAPL'') ''0.10''] []"
              and ?h2.0 = "holding (Some ''AAPL'') ''0.10''"])
     (simp_all add: position_def profile_of_def holding_def)

section \<open>Total equity\<close>

lemma parse_01: "parseFloat ''0.1'' = Fin (3602879701896397 / 36028797018963968)"
proof -
  have "parseFloat ''0.1'' = rnd (1 / 10)"
    by (simp add: parseFloat_def is_digit_def is_space_def digits_value_def exponent_part_def)
  also have "\<dots> = Fin (3602879701896397 / 36028797018963968)"
  using rnd_pos_cert[of "- 4" "1 / 10" 7205759403792794] by (simp add: pow2_def)
  finally show ?thesis .
qed

lemma parse_02: "parseFloat ''0.2'' = Fin (3602879701896397 / 18014398509481984)"
proof -
  have "parseFloat ''0.2'' = rnd (1 / 5)"
    by (simp add: parseFloat_def is_digit_def is_space_def digits_value_def exponent_part_def)
  also have "\<dots> = Fin (3602879701896397 / 18014398509481984)"
  using rnd_pos_cert[of "- 3" "1 / 5" 7205759403792794] by (simp add: pow2_def)
  finally show ?thesis .
qed

lemma parse_03: "parseFloat ''0.3'' = Fin (5404319552844595 / 18014398509481984)"
proof -
  have "parseFloat ''0.3'' = rnd (3 / 10)"
    by (simp add: parseFloat_def is_digit_def is_space_def digits_value_def exponent_part_def)
  also have "\<dots> = Fin (5404319552844595 / 18014398509481984)"
  using rnd_pos_cert[of "- 2" "3 / 10" 5404319552844595] by (simp add: pow2_def)
  finally show ?thesis .
qed

lemma sum_0_01: "js_add (Fin 0) (Fin (3602879701896397 / 36028797018963968)) = Fin (3602879701896397 / 36028797018963968)"
  using rnd_pos_cert[of "- 4" "0 + (3602879701896397 / 36028797018963968)" 7205759403792794]
  by (simp add: pow2_def)

lemma sum_01_02: "js_add (Fin (3602879701896397 / 36028797018963968)) (Fin (3602879701896397 / 18014398509481984)) = Fin (1351079888211149 / 4503599627370496)"
  using rnd_pos_tie[of "- 2" "(3602879701896397 / 36028797018963968) + (3602879701896397 / 18014398509481984)" 5404319552844596]
  by (simp add: pow2_def)

lemma sum_012_03: "js_add (Fin (1351079888211149 / 4503599627370496)) (Fin (5404319552844595 / 18014398509481984)) = Fin (1351079888211149 / 2251799813685248)"
  using rnd_pos_tie[of "- 1" "(1351079888211149 / 4503599627370496) + (5404319552844595 / 18014398509481984)" 5404319552844596]
  by (simp add: pow2_def)

lemma sum_0_03: "js_add (Fin 0) (Fin (5404319552844595 / 18014398509481984)) = Fin (5404319552844595 / 18014398509481984)"
  using rnd_pos_cert[of "- 2" "0 + (5404319552844595 / 18014398509481984)" 5404319552844595]
  by (simp add: pow2_def)

lemma sum_03_02: "js_add (Fin (5404319552844595 / 18014398509481984)) (Fin (3602879701896397 / 18014398509481984)) = Fin (1 / 2)"
  using rnd_pos_cert[of "- 1" "(5404319552844595 / 18014398509481984) + (3602879701896397 / 18014398509481984)" 4503599627370496]
  by (simp add: pow2_def)

lemma sum_032_01: "js_add (Fin (1 / 2)) (Fin (3602879701896397 / 36028797018963968)) = Fin (5404319552844595 / 9007199254740992)"
  using rnd_pos_cert[of "- 1" "(1 / 2) + (3602879701896397 / 36028797018963968)" 5404319552844595]
  by (simp add: pow2_def)

lemma foldl_add_whole:
  assumes "\<forall>x\<in>set xs. is_whole x" "a + sum_list (map whole_of xs) < 2 ^ 53"
  shows "foldl js_add (Fin (of_nat a)) xs = Fin (of_nat (a + sum_list (map whole_of xs)))"
  using assms
proof (induction xs arbitrary: a)
  case Nil
  show ?case by simp
next
  case (Cons x xs)
  have x: "x = Fin (of_nat (whole_of x))" using Cons.prems(1) by (simp add: is_whole_def)
  have lt: "a + whole_of x < 2 ^ 53" using Cons.prems(2) by simp
  have "js_add (Fin (of_nat a)) x = js_add (Fin (of_nat a)) (Fin (of_nat (whole_of x)))"
    using x by simp
  also have "\<dots> = rnd (of_nat (a + whole_of x))" by simp
  also have "\<dots> = Fin (of_nat (a + whole_of x))" using lt by (rule rnd_nat_exact)
  finally have step: "js_add (Fin (of_nat a)) x = Fin (of_nat (a + whole_of x))" .
  have "foldl js_add (Fin (of_nat (a + whole_of x))) xs =
        Fin (of_nat (a + whole_of x + sum_list (map whole_of xs)))"
    using Cons.prems by (intro Cons.IH) (simp_all add: add.assoc)
  then show ?case by (simp add: step add.assoc)
qed

lemma js_sum_whole:
  assumes "\<forall>x\<in>set xs. is_whole x" "sum_list (map whole_of xs) < 2 ^ 53"
  shows "js_sum xs = Fin (of_nat (sum_list (map whole_of xs)))"
  using foldl_add_whole[of xs 0] assms by (simp add: js_sum_def)

lemma mset_contributing_equities:
  assumes "mset q = mset p"
  shows "mset (map equity (filter contributes q)) = mset (map equity (filter contributes p))"
proof -
  have "mset (filter contributes q) = mset (filter contributes p)"
    using assms by (simp only: mset_filter)
  then show ?thesis by (simp only: mset_map)
qed

text \<open>
  Claim C4, as the code has it. \<open>totalEquity\<close> is the sum of the equities of exactly the
  positions with a profile and no error (a missing or empty error), added from \<open>0\<close> in
  insertion order with binary64 additions; the other positions add nothing;
  \<open>hasData\<close> holds exactly when there is such a position. When the equities that count
  are whole amounts with a total below \<open>2^53\<close>, every addition is exact and any
  reordering \<open>q\<close> of the positions gives the same total.
\<close>

theorem C4_total_equity:
  "totalEquity (stats p) = js_sum (map equity (filter contributes p)) \<and>
   totalEquity (stats (filter contributes p)) = totalEquity (stats p) \<and>
   (hasData (stats p) \<longleftrightarrow> (\<exists>item\<in>set p. contributes item)) \<and>
   ((\<forall>item\<in>set p. contributes item \<longrightarrow> is_whole (equity item)) \<and>
    sum_list (map whole_of (map equity (filter contributes p))) < 2 ^ 53 \<and>
    mset q = mset p \<longrightarrow>
    totalEquity (stats q) = totalEquity (stats p))"
proof (intro conjI impI)
  show "totalEquity (stats p) = js_sum (map equity (filter contributes p))"
    by (rule stats_totalEquity)
  show "totalEquity (stats (filter contributes p)) = totalEquity (stats p)"
    by (simp add: stats_totalEquity)
  show "hasData (stats p) \<longleftrightarrow> (\<exists>item\<in>set p. contributes item)"
    by (auto simp: stats_hasData filter_empty_conv)
next
  assume a: "(\<forall>item\<in>set p. contributes item \<longrightarrow> is_whole (equity item)) \<and>
    sum_list (map whole_of (map equity (filter contributes p))) < 2 ^ 53 \<and> mset q = mset p"
  let ?xs = "map equity (filter contributes p)"
  let ?ys = "map equity (filter contributes q)"
  have m: "mset ?ys = mset ?xs" using a by (intro mset_contributing_equities) simp
  have wx: "\<forall>x\<in>set ?xs. is_whole x" using a by auto
  have "set ?ys = set ?xs" using m by (rule mset_eq_setD)
  then have wy: "\<forall>x\<in>set ?ys. is_whole x" using wx by simp
  have "mset (map whole_of ?ys) = mset (map whole_of ?xs)" using m by (simp only: mset_map)
  then have s: "sum_list (map whole_of ?ys) = sum_list (map whole_of ?xs)"
    by (metis sum_mset_sum_list)
  have "js_sum ?xs = Fin (of_nat (sum_list (map whole_of ?xs)))"
    using wx a by (intro js_sum_whole) simp_all
  moreover have "js_sum ?ys = Fin (of_nat (sum_list (map whole_of ?ys)))"
    using wy a s by (intro js_sum_whole) simp_all
  ultimately show "totalEquity (stats q) = totalEquity (stats p)"
    by (simp only: stats_totalEquity s)
qed

lemma whole_numeral: "is_whole (Fin (numeral n))"
  by (simp add: is_whole_def whole_of_def)

theorem C4_total_equity_witness:
  "totalEquity (stats [position ''QQQ'' (Fin 5000) [] [], position ''SPY'' (Fin 10000) [] []]) =
   totalEquity (stats [position ''SPY'' (Fin 10000) [] [], position ''QQQ'' (Fin 5000) [] []]) \<and>
   hasData (stats [position ''SPY'' (Fin 10000) [] [], position ''QQQ'' (Fin 5000) [] []])"
  using C4_total_equity
    [of "[position ''SPY'' (Fin 10000) [] [], position ''QQQ'' (Fin 5000) [] []]"
        "[position ''QQQ'' (Fin 5000) [] [], position ''SPY'' (Fin 10000) [] []]"]
  by (simp add: contributes_def position_def is_whole_def whole_of_def)

text \<open>
  Claim C4 as stated fails: equities 0.1, 0.2 and 0.3 entered in this order add up to
  \<open>0.6000000000000001\<close>, and to \<open>0.6\<close> in the opposite order.
\<close>

theorem C4_order_counterexample:
  "totalEquity (stats [position ''A'' (parseFloat ''0.1'') [] [],
                       position ''B'' (parseFloat ''0.2'') [] [],
                       position ''C'' (parseFloat ''0.3'') [] []]) \<noteq>
   totalEquity (stats [position ''C'' (parseFloat ''0.3'') [] [],
                       position ''B'' (parseFloat ''0.2'') [] [],
                       position ''A'' (parseFloat ''0.1'') [] []])"
proof -
  have c: "\<And>t e. contributes (position t e [] [])" by (simp add: contributes_def position_def)
  have e: "\<And>t e. equity (position t e [] []) = e" by (simp add: position_def)
  have l: "totalEquity (stats [position ''A'' (parseFloat ''0.1'') [] [],
                       position ''B'' (parseFloat ''0.2'') [] [],
                       position ''C'' (parseFloat ''0.3'') [] []]) =
           Fin (1351079888211149 / 2251799813685248)"
    by (simp only: stats_totalEquity filter.simps c if_True list.map e js_sum_def foldl.simps
          parse_01 parse_02 parse_03 sum_0_01 sum_01_02 sum_012_03)
  have r: "totalEquity (stats [position ''C'' (parseFloat ''0.3'') [] [],
                       position ''B'' (parseFloat ''0.2'') [] [],
                       position ''A'' (parseFloat ''0.1'') [] []]) =
           Fin (5404319552844595 / 9007199254740992)"
    by (simp only: stats_totalEquity filter.simps c if_True list.map e js_sum_def foldl.simps
          parse_01 parse_02 parse_03 sum_0_03 sum_03_02 sum_032_01)
  show ?thesis unfolding l r by simp
qed

section \<open>A portfolio without equity\<close>

lemma stats_with_agree:
  assumes "\<forall>x y. y \<noteq> Fin 0 \<longrightarrow> dv x y = js_div x y"
  shows "stats_with dv p = stats p"
proof -
  have "\<And>x y. js_gt y (Fin 0) \<Longrightarrow> dv x y = js_div x y"
    using assms js_gt_nonzero by blast
  then show ?thesis by (simp add: stats_def stats_with_def Let_def)
qed

lemma percent_with_agree:
  assumes "\<forall>x y. y \<noteq> Fin 0 \<longrightarrow> dv x y = js_div x y"
  shows "percent_with dv te v = percent_of te v"
proof -
  have "\<And>x y. js_gt y (Fin 0) \<Longrightarrow> dv x y = js_div x y"
    using assms js_gt_nonzero by blast
  then show ?thesis by (simp add: percent_of_def percent_with_def)
qed

lemma holdings_percentage:
  "a \<in> set (aggregateHoldings p) \<Longrightarrow>
   percentageOfPortfolio a = percent_of (totalEquity (stats p)) (totalValue a)"
  by (auto simp: aggregateHoldings_def set_js_sort to_holding_def)

lemma sectors_percentage:
  "s \<in> set (aggregateSectors p) \<Longrightarrow>
   percentage s = percent_of (totalEquity (stats p)) (sector_value s)"
  by (auto simp: aggregateSectors_def set_js_sort to_sector_def)

text \<open>
  Claim C7. When \<open>totalEquity\<close> is \<open>0\<close>, both averages are exactly \<open>0\<close> and so is the
  percentage of every aggregated holding and of every aggregated sector. No division by
  zero takes place: the statistics and the percentages of both results are the same for
  every division operator \<open>dv\<close> that agrees with the division of the language on the
  divisors other than zero.
\<close>

theorem C7_zero_total_equity:
  assumes "totalEquity (stats p) = Fin 0"
    and "\<forall>x y. y \<noteq> Fin 0 \<longrightarrow> dv x y = js_div x y"
  shows "avgExpenseRatio (stats p) = Fin 0 \<and> avgDividendYield (stats p) = Fin 0 \<and>
         (\<forall>a\<in>set (aggregateHoldings p). percentageOfPortfolio a = Fin 0) \<and>
         (\<forall>s\<in>set (aggregateSectors p). percentage s = Fin 0) \<and>
         stats_with dv p = stats p \<and>
         (\<forall>a\<in>set (aggregateHoldings p).
            percentageOfPortfolio a = percent_with dv (totalEquity (stats p)) (totalValue a)) \<and>
         (\<forall>s\<in>set (aggregateSectors p).
            percentage s = percent_with dv (totalEquity (stats p)) (sector_value s))"
proof -
  have z: "\<not> js_gt (totalEquity (stats p)) (Fin 0)" using assms(1) by (simp add: js_gt_def)
  have "avgExpenseRatio (stats p) = Fin 0 \<and> avgDividendYield (stats p) = Fin 0"
    using z by (rule stats_avg_zero)
  moreover have "\<forall>a\<in>set (aggregateHoldings p). percentageOfPortfolio a = Fin 0"
    using z by (simp add: holdings_percentage percent_of_zero)
  moreover have "\<forall>s\<in>set (aggregateSectors p). percentage s = Fin 0"
    using z by (simp add: sectors_percentage percent_of_zero)
  moreover have "stats_with dv p = stats p" using assms(2) by (rule stats_with_agree)
  moreover have "\<forall>a\<in>set (aggregateHoldings p).
      percentageOfPortfolio a = percent_with dv (totalEquity (stats p)) (totalValue a)"
    using assms(2) by (simp add: holdings_percentage percent_with_agree)
  moreover have "\<forall>s\<in>set (aggregateSectors p).
      percentage s = percent_with dv (totalEquity (stats p)) (sector_value s)"
    using assms(2) by (simp add: sectors_percentage percent_with_agree)
  ultimately show ?thesis by blast
qed

text \<open>
  A portfolio with one position of equity \<open>0\<close> and one holding, and a division that
  gives \<open>NaN\<close> where the divisor is zero.
\<close>

lemma zero_portfolio_total:
  "totalEquity (stats [position ''SPY'' (Fin 0) [holding (Some ''AAPL'') ''0.5''] []]) = Fin 0"
  by (simp add: stats_totalEquity contributes_def position_def js_sum_def rnd_def)

lemma length_foldl_sort_insert:
  "length (foldl (\<lambda>acc x. sort_insert cmp x acc) acc xs) = length acc + length xs"
  by (induction xs arbitrary: acc) (simp_all add: length_sort_insert)

lemma length_js_sort: "length (js_sort cmp xs) = length xs"
  by (simp add: js_sort_def length_foldl_sort_insert)

lemma length_aggregateHoldings:
  "length (aggregateHoldings p) = length (first_seen [] (map fst (contributions p)))"
proof -
  have "length (aggregateHoldings p) = length (map fst (fst (merged_maps p)))"
    by (simp add: aggregateHoldings_def length_js_sort)
  then show ?thesis by (simp only: merged_keys)
qed

lemma zero_portfolio_length:
  "length (aggregateHoldings [position ''SPY'' (Fin 0) [holding (Some ''AAPL'') ''0.5''] []]) = 1"
  by (simp add: length_aggregateHoldings contributions_def aggregates_def item_holdings_def
        position_def profile_of_def)

theorem C7_zero_total_equity_witness:
  "avgExpenseRatio (stats [position ''SPY'' (Fin 0) [holding (Some ''AAPL'') ''0.5''] []]) = Fin 0 \<and>
   avgDividendYield (stats [position ''SPY'' (Fin 0) [holding (Some ''AAPL'') ''0.5''] []]) = Fin 0 \<and>
   map percentageOfPortfolio
     (aggregateHoldings [position ''SPY'' (Fin 0) [holding (Some ''AAPL'') ''0.5''] []]) = [Fin 0] \<and>
   stats_with (\<lambda>x y. if y = Fin 0 then NaN else js_div x y)
     [position ''SPY'' (Fin 0) [holding (Some ''AAPL'') ''0.5''] []] =
   stats [position ''SPY'' (Fin 0) [holding (Some ''AAPL'') ''0.5''] []]"
proof -
  let ?p = "[position ''SPY'' (Fin 0) [holding (Some ''AAPL'') ''0.5''] []]"
  note t = C7_zero_total_equity
    [of ?p "\<lambda>x y. if y = Fin 0 then NaN else js_div x y", OF zero_portfolio_total]
  obtain a where a: "aggregateHoldings ?p = [a]"
    using zero_portfolio_length by (cases "aggregateHoldings ?p") auto
  have "percentageOfPortfolio a = Fin 0" using t a by simp
  then show ?thesis using t a by simp
qed

section \<open>Weights that are not numbers\<close>

lemma parse_05: "parseFloat ''0.5'' = Fin (1 / 2)"
proof -
  have "parseFloat ''0.5'' = rnd (1 / 2)"
    by (simp add: parseFloat_def is_digit_def is_space_def digits_value_def exponent_part_def)
  also have "\<dots> = Fin (1 / 2)"
  using rnd_pos_cert[of "- 1" "1 / 2" 4503599627370496] by (simp add: pow2_def)
  finally show ?thesis .
qed

lemma parse_025: "parseFloat ''0.25'' = Fin (1 / 4)"
proof -
  have "parseFloat ''0.25'' = rnd (1 / 4)"
    by (simp add: parseFloat_def is_digit_def is_space_def digits_value_def exponent_part_def)
  also have "\<dots> = Fin (1 / 4)"
  using rnd_pos_cert[of "- 2" "1 / 4" 4503599627370496] by (simp add: pow2_def)
  finally show ?thesis .
qed

lemma parse_0125: "parseFloat ''0.125'' = Fin (1 / 8)"
proof -
  have "parseFloat ''0.125'' = rnd (1 / 8)"
    by (simp add: parseFloat_def is_digit_def is_space_def digits_value_def exponent_part_def)
  also have "\<dots> = Fin (1 / 8)"
  using rnd_pos_cert[of "- 3" "1 / 8" 4503599627370496] by (simp add: pow2_def)
  finally show ?thesis .
qed

lemma parse_na: "parseFloat ''n/a'' = NaN"
  by (simp add: parseFloat_def is_digit_def is_space_def)

lemma rnd_125: "rnd 125 = Fin 125"
  using rnd_nat_exact[of 125] by simp

lemma rnd_250: "rnd 250 = Fin 250"
  using rnd_nat_exact[of 250] by simp

lemma rnd_500: "rnd 500 = Fin 500"
  using rnd_nat_exact[of 500] by simp

lemma rnd_750: "rnd 750 = Fin 750"
  using rnd_nat_exact[of 750] by simp

lemma rnd_1000: "rnd 1000 = Fin 1000"
  using rnd_nat_exact[of 1000] by simp

lemmas eval_numbers =
  parse_05 parse_025 parse_0125 parse_na rnd_125 rnd_250 rnd_500 rnd_750 rnd_1000 rnd_minus

lemmas eval_aggregation =
  aggregateHoldings_def aggregateSectors_def merged_maps_def item_step_def holding_step_def
  sector_step_def holding_key_def holding_description_def is_cash_def map_get_def
  to_holding_def to_sector_def js_sort_def js_sub_def js_gt_def
  position_def profile_of_def holding_def Let_def

text \<open>
  Claim C1 against the code. One position of equity 1000; its holdings list has AAPL
  with weight \<open>0.5\<close> and AAPL again with the weight \<open>n/a\<close>, its sectors list has TECH
  with the weights \<open>0.5\<close>, \<open>n/a\<close> and \<open>0.25\<close>. \<open>parseFloat\<close> gives \<open>NaN\<close> for \<open>n/a\<close> and
  nothing replaces it by \<open>0\<close>: the AAPL total is \<open>NaN\<close> (the claim says 500), and the TECH
  total is 250 (the claim says 750), because \<open>sectorMap.get(..) || 0\<close> drops the \<open>NaN\<close>
  together with the 500 accumulated before it.
\<close>

theorem C1_non_numeric_weight_corrupts:
  "map totalValue
     (aggregateHoldings
        [position ''SPY'' (Fin 1000)
           [holding (Some ''AAPL'') ''0.5'', holding (Some ''AAPL'') ''n/a''] []]) = [NaN] \<and>
   map sector_value
     (aggregateSectors
        [position ''SPY'' (Fin 1000) []
           [\<lparr>sector = ''TECH'', sector_weight = ''0.5''\<rparr>,
            \<lparr>sector = ''TECH'', sector_weight = ''n/a''\<rparr>,
            \<lparr>sector = ''TECH'', sector_weight = ''0.25''\<rparr>]]) = [Fin 250]"
  by (simp add: eval_aggregation eval_numbers)

section \<open>The cache\<close>

lemma not_fresh_NaN: "field_to_number timestamp = NaN \<Longrightarrow> \<not> is_fresh now timestamp"
  by (simp add: is_fresh_def js_sub_def)

lemma getCache_entry:
  assumes "ls (cache_key k) = Some (EntryText timestamp d)"
  shows "getCache ls now k =
           (if is_fresh now timestamp then (d, ls) else (None, ls(cache_key k := None)))"
  using assms by (simp add: getCache_def)



lemma getCache_absent:
  assumes "ls (cache_key k) = None"
  shows "getCache ls now k = (None, ls)"
  using assms by (simp add: getCache_def)

lemma getCache_Some:
  assumes "fst (getCache ls now k) = Some d"
  shows "\<exists>timestamp. ls (cache_key k) = Some (EntryText timestamp (Some d)) \<and>
           is_fresh now timestamp"
proof (cases "ls (cache_key k)")
  case None
  then show ?thesis using assms by (simp add: getCache_def)
next
  case (Some x)
  then show ?thesis using assms
    by (cases x) (auto simp: getCache_def split: if_splits)
qed




text \<open>
  The timestamp of a stored entry is coerced where it is subtracted: the string
  \<open>4000\<close> counts as the number, so at time 5000 the entry is fresh, returned and kept.
\<close>

lemma rnd_4000: "rnd 4000 = Fin 4000"
  using rnd_nat_exact[of 4000] by simp

lemma string_4000: "string_to_number ''4000'' = Fin 4000"
  by (simp add: string_to_number_def trim_def is_space_def radix_literal_def decimal_rest_def
        exponent_rest_def parseFloat_def digits_value_def exponent_part_def is_digit_def
        rnd_4000)

lemma string_timestamp_fresh: "is_fresh 5000 (Some (JStr ''4000''))"
  by (simp add: is_fresh_def field_to_number_def string_4000 js_sub_def rnd_1000
        CACHE_DURATION_def)

lemma getCache_string_timestamp:
  "getCache [cache_key ''SPY'' \<mapsto> EntryText (Some (JStr ''4000'')) (Some d)] 5000 ''SPY'' =
     (Some d, [cache_key ''SPY'' \<mapsto> EntryText (Some (JStr ''4000'')) (Some d)])"
  by (simp add: getCache_entry string_timestamp_fresh)

text \<open>
  Claim C10, as the code has it. A stored text that is not empty and that
  \<open>JSON.parse\<close> rejects, or that parses to \<open>null\<close>, is removed by the read that finds
  it; the read returns nothing, leaves the other keys alone, and a later read finds
  nothing under the key. So is a parsed entry whose timestamp, coerced to a number, is
  \<open>NaN\<close> (a missing timestamp among them). A read returns data only from a parsed entry
  that holds the data and whose timestamp, coerced to a number, is less than
  86,400,000 ms before the time of the read. The empty text is falsy: the read returns
  nothing before it tries to decode, and the text stays in the storage.
\<close>

theorem C10_corrupt_entry_removed:
  "(ls (cache_key k) = Some InvalidJson \<or> ls (cache_key k) = Some NullJson \<or>
    (\<exists>timestamp d. ls (cache_key k) = Some (EntryText timestamp d) \<and>
       field_to_number timestamp = NaN) \<longrightarrow>
      getCache ls now k = (None, ls(cache_key k := None)) \<and>
      getCache (snd (getCache ls now k)) now' k = (None, ls(cache_key k := None))) \<and>
   (\<forall>d. fst (getCache ls now k) = Some d \<longrightarrow>
      (\<exists>timestamp. ls (cache_key k) = Some (EntryText timestamp (Some d)) \<and>
         is_fresh now timestamp)) \<and>
   (ls (cache_key k) = Some EmptyText \<longrightarrow> getCache ls now k = (None, ls))"
proof (intro conjI impI allI)
  assume c: "ls (cache_key k) = Some InvalidJson \<or> ls (cache_key k) = Some NullJson \<or>
    (\<exists>timestamp d. ls (cache_key k) = Some (EntryText timestamp d) \<and>
       field_to_number timestamp = NaN)"
  show r: "getCache ls now k = (None, ls(cache_key k := None))"
    using c by (auto simp: getCache_def not_fresh_NaN)
  have "(ls(cache_key k := None)) (cache_key k) = None" by simp
  then have "getCache (ls(cache_key k := None)) now' k = (None, ls(cache_key k := None))"
    by (rule getCache_absent)
  then show "getCache (snd (getCache ls now k)) now' k = (None, ls(cache_key k := None))"
    by (simp add: r)
next
  fix d assume "fst (getCache ls now k) = Some d"
  then show "\<exists>timestamp. ls (cache_key k) = Some (EntryText timestamp (Some d)) \<and>
         is_fresh now timestamp"
    by (rule getCache_Some)
next
  assume "ls (cache_key k) = Some EmptyText"
  then show "getCache ls now k = (None, ls)" by (simp add: getCache_def)
qed

theorem C10_corrupt_entry_removed_witness:
  "getCache [cache_key ''SPY'' \<mapsto> InvalidJson] 0 ''SPY'' = (None, Map.empty) \<and>
   getCache (snd (getCache [cache_key ''SPY'' \<mapsto> InvalidJson] 0 ''SPY'')) 1 ''SPY'' =
     (None, Map.empty)"
proof -
  let ?ls = "[cache_key ''SPY'' \<mapsto> InvalidJson]"
  have p: "?ls (cache_key ''SPY'') = Some InvalidJson" by simp
  have e: "?ls(cache_key ''SPY'' := None) = Map.empty" by simp
  have "getCache ?ls 0 ''SPY'' = (None, ?ls(cache_key ''SPY'' := None)) \<and>
        getCache (snd (getCache ?ls 0 ''SPY'')) 1 ''SPY'' =
          (None, ?ls(cache_key ''SPY'' := None))"
    using C10_corrupt_entry_removed [of ?ls "''SPY''" 0 1] p by blast
  then show ?thesis unfolding e .
qed

text \<open>
  Claim C10 as stated fails for the empty text: it cannot be decoded (\<open>JSON.parse\<close>
  rejects it), and the read leaves it where it is.
\<close>

theorem C10_empty_text_counterexample:
  "snd (getCache [cache_key ''SPY'' \<mapsto> EmptyText] 0 ''SPY'') (cache_key ''SPY'') = Some EmptyText"
  by (simp add: getCache_def)

section \<open>Fetching\<close>

lemma fetch_miss:
  assumes "fst (getCache ls (now_read env) t) = None"
    and "profile_answer env = ProfileResponse ok status (Some b)"
  shows "fst (fetchEtfProfile env ls t) =
     (if \<not> ok then Inl (Transport status)
      else case check_body b of
             Inl e \<Rightarrow> Inl e
           | Inr hs \<Rightarrow> Inr (final_data b hs (lookup_name t (search_answer env))))"
  using assms
  by (cases "getCache ls (now_read env) t")
     (auto simp: fetchEtfProfile_def Let_def split: sum.splits)


lemma fetch_success_miss:
  assumes "fst (getCache ls (now_read env) t) = None"
    and "fst (fetchEtfProfile env ls t) = Inr d"
  shows "\<exists>status b hs. profile_answer env = ProfileResponse True status (Some b) \<and>
           check_body b = Inr hs \<and> d = final_data b hs (lookup_name t (search_answer env))"
  using assms
  by (cases "getCache ls (now_read env) t")
     (auto simp: fetchEtfProfile_def Let_def
           split: sum.splits profile_reply.splits option.splits if_splits)



lemma miss_empty: "fst (getCache Map.empty n t) = None"
  by (simp add: getCache_def)


lemma fetch_hit:
  assumes "fst (getCache ls (now_read env) t) = Some c"
  shows "fst (fetchEtfProfile env ls t) = Inr c"
  using assms by (cases "getCache ls (now_read env) t") (simp add: fetchEtfProfile_def)

lemma lookup_name_failed: "search_failed t s \<Longrightarrow> lookup_name t s = Some (JStr t)"
  by (auto simp: search_failed_def lookup_name_def split: find_result.splits)

lemma lookup_name_match: "search_result t s = Match m \<Longrightarrow> lookup_name t s = field m ''2. name''"
  by (simp add: lookup_name_def)

lemma find_match_none:
  assumes "\<forall>m\<in>set ms. field m ''1. symbol'' \<noteq> Some (JStr t)"
  shows "find_match t ms \<noteq> Match m"
  using assms
proof (induction ms)
  case Nil
  show ?case by simp
next
  case (Cons x ms)
  then show ?case by (cases x) auto
qed

lemma find_match_first:
  assumes "\<forall>x\<in>set pre. x \<noteq> JNull \<and> field x ''1. symbol'' \<noteq> Some (JStr t)"
    and "field m ''1. symbol'' = Some (JStr t)"
  shows "find_match t (pre @ m # post) = Match m"
  using assms(1)
proof (induction pre)
  case Nil
  have "m \<noteq> JNull" using assms(2) by auto
  then show ?case using assms(2) by (cases m) simp_all
next
  case (Cons x pre)
  then show ?case by (cases x) simp_all
qed

lemma find_match_null:
  assumes "\<forall>x\<in>set pre. field x ''1. symbol'' \<noteq> Some (JStr t)"
  shows "find_match t (pre @ JNull # post) \<noteq> Match m"
  using assms
proof (induction pre)
  case Nil
  show ?case by simp
next
  case (Cons x pre)
  then show ?case by (cases x) simp_all
qed

lemma search_result_array:
  assumes "field body ''bestMatches'' = Some (JArr ms)"
  shows "search_result t (SearchBody body) = find_match t ms"
  using assms by (cases body) (simp_all add: search_result_def)

lemma search_failed_cases:
  "search_failed t SearchRejected \<and> search_failed t SearchUndecodable \<and>
   ((\<forall>ms. field body ''bestMatches'' \<noteq> Some (JArr ms)) \<longrightarrow> search_failed t (SearchBody body)) \<and>
   (field body ''bestMatches'' = Some (JArr ms) \<and>
    (\<forall>x\<in>set ms. field x ''1. symbol'' \<noteq> Some (JStr t)) \<longrightarrow>
      search_failed t (SearchBody body)) \<and>
   (field body ''bestMatches'' = Some (JArr (pre @ JNull # post)) \<and>
    (\<forall>x\<in>set pre. field x ''1. symbol'' \<noteq> Some (JStr t)) \<longrightarrow>
      search_failed t (SearchBody body)) \<and>
   (field body ''bestMatches'' = Some (JArr (pre @ m # post)) \<and>
    (\<forall>x\<in>set pre. x \<noteq> JNull \<and> field x ''1. symbol'' \<noteq> Some (JStr t)) \<and>
    field m ''1. symbol'' = Some (JStr t) \<longrightarrow>
      search_result t (SearchBody body) = Match m)"
proof (intro conjI impI)
  show "search_failed t SearchRejected" by (simp add: search_failed_def search_result_def)
  show "search_failed t SearchUndecodable" by (simp add: search_failed_def search_result_def)
  show "search_failed t (SearchBody body)" if "\<forall>ms. field body ''bestMatches'' \<noteq> Some (JArr ms)"
    using that
    by (cases body)
       (auto simp: search_failed_def search_result_def split: option.splits json.splits)
  show "search_failed t (SearchBody body)"
    if a: "field body ''bestMatches'' = Some (JArr ms) \<and>
       (\<forall>x\<in>set ms. field x ''1. symbol'' \<noteq> Some (JStr t))"
  proof -
    have "\<And>m. find_match t ms \<noteq> Match m" using a find_match_none by blast
    then show ?thesis using a
      by (simp add: search_failed_def search_result_array split: find_result.splits)
  qed
  show "search_failed t (SearchBody body)"
    if a: "field body ''bestMatches'' = Some (JArr (pre @ JNull # post)) \<and>
       (\<forall>x\<in>set pre. field x ''1. symbol'' \<noteq> Some (JStr t))"
  proof -
    have "\<And>m. find_match t (pre @ JNull # post) \<noteq> Match m" using a find_match_null by blast
    then show ?thesis using a
      by (simp add: search_failed_def search_result_array split: find_result.splits)
  qed
  show "search_result t (SearchBody body) = Match m"
    if a: "field body ''bestMatches'' = Some (JArr (pre @ m # post)) \<and>
       (\<forall>x\<in>set pre. x \<noteq> JNull \<and> field x ''1. symbol'' \<noteq> Some (JStr t)) \<and>
       field m ''1. symbol'' = Some (JStr t)"
    using a by (simp add: search_result_array find_match_first)
qed

lemma fetch_search_independent:
  "(\<forall>e. fst (fetchEtfProfile env ls t) = Inl e \<longrightarrow>
        fst (fetchEtfProfile (env\<lparr>search_answer := s\<rparr>) ls t) = Inl e) \<and>
   (\<forall>d. fst (fetchEtfProfile env ls t) = Inr d \<longrightarrow>
        (\<exists>d'. fst (fetchEtfProfile (env\<lparr>search_answer := s\<rparr>) ls t) = Inr d' \<and>
              d'\<lparr>name := name d\<rparr> = d))"
proof (cases "fst (getCache ls (now_read env) t)")
  case (Some c)
  then have "fst (getCache ls (now_read (env\<lparr>search_answer := s\<rparr>)) t) = Some c" by simp
  then show ?thesis using fetch_hit[OF Some] fetch_hit[of ls "env\<lparr>search_answer := s\<rparr>" t c]
    by simp
next
  case None
  then have n: "fst (getCache ls (now_read (env\<lparr>search_answer := s\<rparr>)) t) = None" by simp
  show ?thesis
  proof (cases "profile_answer env")
    case ProfileRejected
    then show ?thesis using None
      by (cases "getCache ls (now_read env) t") (simp add: fetchEtfProfile_def)
  next
    case (ProfileResponse ok status body)
    show ?thesis
    proof (cases body)
      case None
      then show ?thesis using ProfileResponse \<open>fst (getCache ls (now_read env) t) = None\<close>
        by (cases "getCache ls (now_read env) t") (simp add: fetchEtfProfile_def)
    next
      case (Some b)
      have p: "profile_answer (env\<lparr>search_answer := s\<rparr>) = ProfileResponse ok status (Some b)"
        using ProfileResponse Some by simp
      show ?thesis
        using fetch_miss[OF \<open>fst (getCache ls (now_read env) t) = None\<close>, of ok status b]
          fetch_miss[OF n p] ProfileResponse Some
        by (auto simp: final_data_def split: sum.splits)
    qed
  qed
qed

text \<open>
  Claim C8, as the code has it. Whatever the name lookup does (\<open>s\<close> is any answer to
  the search query), the call fails with the same error or succeeds with the same
  profile, the name apart. When the lookup ends without a matching entry, the name of
  the fetched profile is the ticker as it was passed. That is so when the query is
  rejected, when its body does not decode, when the body has no array \<open>bestMatches\<close>,
  when no entry of the array has the ticker as its symbol, and when a \<open>null\<close> entry
  comes before any such entry (the search for the entry throws there). When the lookup
  finds a matching entry \<open>m\<close>, the first entry with the ticker as its symbol, the name
  is the value of its field \<open>2. name\<close> as it is, and nothing (\<open>undefined\<close>) when the
  entry has no such field.
\<close>

theorem C8_name_lookup_absorbed:
  "(\<forall>e. fst (fetchEtfProfile env ls t) = Inl e \<longrightarrow>
        fst (fetchEtfProfile (env\<lparr>search_answer := s\<rparr>) ls t) = Inl e) \<and>
   (\<forall>d. fst (fetchEtfProfile env ls t) = Inr d \<longrightarrow>
        (\<exists>d'. fst (fetchEtfProfile (env\<lparr>search_answer := s\<rparr>) ls t) = Inr d' \<and>
              d'\<lparr>name := name d\<rparr> = d)) \<and>
   (\<forall>d'. fst (getCache ls (now_read env) t) = None \<and>
         fst (fetchEtfProfile (env\<lparr>search_answer := s\<rparr>) ls t) = Inr d' \<longrightarrow>
         (search_failed t s \<longrightarrow> name d' = Some (JStr t)) \<and>
         (\<forall>m. search_result t s = Match m \<longrightarrow> name d' = field m ''2. name'')) \<and>
   search_failed t SearchRejected \<and> search_failed t SearchUndecodable \<and>
   (\<forall>body. (\<forall>ms. field body ''bestMatches'' \<noteq> Some (JArr ms)) \<longrightarrow>
      search_failed t (SearchBody body)) \<and>
   (\<forall>body ms. field body ''bestMatches'' = Some (JArr ms) \<and>
      (\<forall>x\<in>set ms. field x ''1. symbol'' \<noteq> Some (JStr t)) \<longrightarrow>
      search_failed t (SearchBody body)) \<and>
   (\<forall>body pre post. field body ''bestMatches'' = Some (JArr (pre @ JNull # post)) \<and>
      (\<forall>x\<in>set pre. field x ''1. symbol'' \<noteq> Some (JStr t)) \<longrightarrow>
      search_failed t (SearchBody body)) \<and>
   (\<forall>body pre m post. field body ''bestMatches'' = Some (JArr (pre @ m # post)) \<and>
      (\<forall>x\<in>set pre. x \<noteq> JNull \<and> field x ''1. symbol'' \<noteq> Some (JStr t)) \<and>
      field m ''1. symbol'' = Some (JStr t) \<longrightarrow>
      search_result t (SearchBody body) = Match m)"
proof -
  have n: "(search_failed t s \<longrightarrow> name d' = Some (JStr t)) \<and>
        (\<forall>m. search_result t s = Match m \<longrightarrow> name d' = field m ''2. name'')"
    if "fst (getCache ls (now_read env) t) = None \<and>
        fst (fetchEtfProfile (env\<lparr>search_answer := s\<rparr>) ls t) = Inr d'" for d'
  proof -
    have g: "fst (getCache ls (now_read (env\<lparr>search_answer := s\<rparr>)) t) = None"
      using that by simp
    have f: "fst (fetchEtfProfile (env\<lparr>search_answer := s\<rparr>) ls t) = Inr d'"
      using that by simp
    from fetch_success_miss[OF g f] obtain status b hs where
      "d' = final_data b hs (lookup_name t s)" by auto
    then have "name d' = lookup_name t s" by (simp add: final_data_def)
    then show ?thesis by (simp add: lookup_name_failed lookup_name_match)
  qed
  note i = fetch_search_independent[of env ls t s]
  note c = search_failed_cases[of t]
  show ?thesis
  proof (intro conjI allI)
    show "fst (fetchEtfProfile env ls t) = Inl e \<longrightarrow>
        fst (fetchEtfProfile (env\<lparr>search_answer := s\<rparr>) ls t) = Inl e" for e
      using i by blast
    show "fst (fetchEtfProfile env ls t) = Inr d \<longrightarrow>
        (\<exists>d'. fst (fetchEtfProfile (env\<lparr>search_answer := s\<rparr>) ls t) = Inr d' \<and>
              d'\<lparr>name := name d\<rparr> = d)" for d
      using i by blast
    show "fst (getCache ls (now_read env) t) = None \<and>
         fst (fetchEtfProfile (env\<lparr>search_answer := s\<rparr>) ls t) = Inr d' \<longrightarrow>
         (search_failed t s \<longrightarrow> name d' = Some (JStr t)) \<and>
         (\<forall>m. search_result t s = Match m \<longrightarrow> name d' = field m ''2. name'')" for d'
      using n by blast
    show "search_failed t SearchRejected" using c by blast
    show "search_failed t SearchUndecodable" using c by blast
    show "(\<forall>ms. field body ''bestMatches'' \<noteq> Some (JArr ms)) \<longrightarrow>
      search_failed t (SearchBody body)" for body using c[of body] by blast
    show "field body ''bestMatches'' = Some (JArr ms) \<and>
      (\<forall>x\<in>set ms. field x ''1. symbol'' \<noteq> Some (JStr t)) \<longrightarrow>
      search_failed t (SearchBody body)" for body ms using c[of body ms] by blast
    show "field body ''bestMatches'' = Some (JArr (pre @ JNull # post)) \<and>
      (\<forall>x\<in>set pre. field x ''1. symbol'' \<noteq> Some (JStr t)) \<longrightarrow>
      search_failed t (SearchBody body)" for body pre post using c[of body _ pre post] by blast
    show "field body ''bestMatches'' = Some (JArr (pre @ m # post)) \<and>
      (\<forall>x\<in>set pre. x \<noteq> JNull \<and> field x ''1. symbol'' \<noteq> Some (JStr t)) \<and>
      field m ''1. symbol'' = Some (JStr t) \<longrightarrow>
      search_result t (SearchBody body) = Match m" for body pre m post
      using c[of body _ pre post m] by blast
  qed
qed

text \<open>
  The query is rejected, after a first answer that had a match: the call succeeds as
  before, now with the ticker as name.
\<close>

theorem C8_name_lookup_absorbed_witness:
  "fst (fetchEtfProfile
          (plain_env (ProfileResponse True 200 (Some (plain_body (Array [])))) SearchRejected)
          Map.empty ''SPY'') =
     Inr (final_data (plain_body (Array [])) [] (Some (JStr ''SPY'')))"
proof -
  let ?good = "SearchBody (JObj [(''bestMatches'',
      JArr [JObj [(''1. symbol'', JStr ''SPY''), (''2. name'', JStr ''SPDR S&P 500'')]])])"
  let ?env = "plain_env (ProfileResponse True 200 (Some (plain_body (Array [])))) ?good"
  let ?env' = "plain_env (ProfileResponse True 200 (Some (plain_body (Array [])))) SearchRejected"
  have e: "?env\<lparr>search_answer := SearchRejected\<rparr> = ?env'" by (simp add: plain_env_def)
  have pa: "profile_answer ?env = ProfileResponse True 200 (Some (plain_body (Array [])))"
    by (simp add: plain_env_def)
  have cb: "check_body (plain_body (Array [])) = Inr []"
    by (simp add: check_body_def plain_body_def)
  have m: "fst (getCache Map.empty (now_read ?env) ''SPY'') = None" by (rule miss_empty)
  have ok: "fst (fetchEtfProfile ?env Map.empty ''SPY'') =
      Inr (final_data (plain_body (Array [])) [] (lookup_name ''SPY'' (search_answer ?env)))"
    using fetch_miss[OF m pa] cb by simp
  note t = C8_name_lookup_absorbed[of ?env Map.empty "''SPY''" SearchRejected]
  from t ok obtain d' where d': "fst (fetchEtfProfile ?env' Map.empty ''SPY'') = Inr d'"
    and same: "d'\<lparr>name := name (final_data (plain_body (Array [])) []
                  (lookup_name ''SPY'' (search_answer ?env)))\<rparr> =
               final_data (plain_body (Array [])) [] (lookup_name ''SPY'' (search_answer ?env))"
    unfolding e by blast
  have f: "search_failed ''SPY'' SearchRejected" using t by blast
  have n: "name d' = Some (JStr ''SPY'')" using t m d' f unfolding e by blast
  have "d' = final_data (plain_body (Array [])) [] (Some (JStr ''SPY''))"
    using same n by (cases d') (simp add: final_data_def)
  then show ?thesis using d' by simp
qed

text \<open>
  Claim C8 as stated fails for a malformed answer whose matching entry has no name:
  the code takes \<open>match['2. name']\<close>, which is \<open>undefined\<close>, and the profile is
  returned without a name instead of with the ticker.
\<close>

theorem C8_nameless_match_counterexample:
  "fst (fetchEtfProfile
          (plain_env (ProfileResponse True 200 (Some (plain_body (Array []))))
             (SearchBody (JObj [(''bestMatches'', JArr [JObj [(''1. symbol'', JStr ''SPY'')]])])))
          Map.empty ''SPY'') =
     Inr (final_data (plain_body (Array [])) [] None) \<and>
   name (final_data (plain_body (Array [])) [] None) \<noteq> Some (JStr ''SPY'')"
proof -
  let ?env = "plain_env (ProfileResponse True 200 (Some (plain_body (Array []))))
             (SearchBody (JObj [(''bestMatches'', JArr [JObj [(''1. symbol'', JStr ''SPY'')]])]))"
  have pa: "profile_answer ?env = ProfileResponse True 200 (Some (plain_body (Array [])))"
    by (simp add: plain_env_def)
  have cb: "check_body (plain_body (Array [])) = Inr []"
    by (simp add: check_body_def plain_body_def)
  have m: "fst (getCache Map.empty (now_read ?env) ''SPY'') = None" by (rule miss_empty)
  have l: "lookup_name ''SPY'' (search_answer ?env) = None"
    by (simp add: plain_env_def lookup_name_def search_result_def)
  show ?thesis using fetch_miss[OF m pa] cb l by (simp add: final_data_def)
qed

section \<open>Buckets of the merge map\<close>

lemma map_get_distinct:
  assumes "distinct (map fst m)" "(k, e) \<in> set m"
  shows "map_get m k = Some e"
  using assms by (simp add: map_get_def)

lemma merged_entry_value:
  assumes "(k, e) \<in> set (fst (merged_maps p))"
  shows "entry_value e = bucket_total p k"
proof -
  have "map_get (fst (merged_maps p)) k = Some e"
    using merged_keys_distinct assms by (rule map_get_distinct)
  then have "bucket_value (fst (merged_maps p)) k = entry_value e"
    by (simp add: bucket_value_def)
  then show ?thesis by (simp add: merged_bucket_value bucket_total_def)
qed

lemma holdings_entries:
  "set (aggregateHoldings p) =
     to_holding (totalEquity (stats p)) ` set (fst (merged_maps p))"
  by (simp add: aggregateHoldings_def set_js_sort)

lemma holding_totalValue:
  assumes "a \<in> set (aggregateHoldings p)"
  shows "totalValue a = bucket_total p (holding_ticker a)"
proof -
  obtain k e where ke: "(k, e) \<in> set (fst (merged_maps p))"
    and a: "a = to_holding (totalEquity (stats p)) (k, e)"
    using assms by (auto simp: holdings_entries)
  show ?thesis using merged_entry_value[OF ke] by (simp add: a to_holding_def)
qed

lemma tickers_of_holdings:
  "map holding_ticker (map (to_holding te) m) = map fst m"
  by (induction m) (simp_all add: to_holding_def)










lemma contributions_Nil: "contributions [] = []"
  by (simp add: contributions_def)

lemma contributions_Cons:
  "contributions (position t eq hs ss # p) =
     map (\<lambda>h. (holding_key h, holding_value eq h)) hs @ contributions p"
  by (simp add: contributions_def aggregates_def item_holdings_def position_def profile_of_def)

lemmas eval_contributions =
  contributions_Cons contributions_Nil holding_key_def is_cash_def holding_value_def
  holding_def js_sum_def



section \<open>The order of the result\<close>

lemma js_sum_snoc: "js_sum (xs @ [x]) = js_add (js_sum xs) x"
  by (simp add: js_sum_def)

lemma js_sum_good:
  assumes "xs \<noteq> []" "js_sum xs \<noteq> NaN"
  shows "good (js_sum xs)"
proof -
  have xs: "xs = butlast xs @ [last xs]" using assms(1) by simp
  have "js_sum xs = js_add (js_sum (butlast xs)) (last xs)"
    using js_sum_snoc[of "butlast xs" "last xs"] xs by simp
  then show ?thesis using assms(2) js_add_good by simp
qed

lemma holding_ticker_key:
  assumes "a \<in> set (aggregateHoldings p)"
  shows "holding_ticker a \<in> fst ` set (contributions p)"
proof -
  obtain k e where ke: "(k, e) \<in> set (fst (merged_maps p))"
    and a: "a = to_holding (totalEquity (stats p)) (k, e)"
    using assms by (auto simp: holdings_entries)
  have "k \<in> set (map fst (fst (merged_maps p)))" using ke by force
  then have "k \<in> set (map fst (contributions p))" by (simp add: merged_keys set_first_seen)
  then show ?thesis by (simp add: a to_holding_def)
qed

lemma holding_total_good:
  assumes "a \<in> set (aggregateHoldings p)" "totalValue a \<noteq> NaN"
  shows "good (totalValue a)"
proof -
  let ?xs = "map snd (filter (\<lambda>c. fst c = holding_ticker a) (contributions p))"
  have t: "totalValue a = js_sum ?xs"
    using holding_totalValue[OF assms(1)] by (simp add: bucket_total_def)
  have "?xs \<noteq> []" using holding_ticker_key[OF assms(1)] by (force simp: filter_empty_conv)
  then show ?thesis using assms(2) js_sum_good[of ?xs] by (simp add: t)
qed

lemma map_fst_filter_values:
  assumes "\<forall>ke\<in>set m. f ke = g (fst ke)"
  shows "map fst (filter (\<lambda>ke. f ke = v) m) = filter (\<lambda>k. g k = v) (map fst m)"
  using assms by (induction m) auto

lemma entries_good:
  assumes "\<forall>a\<in>set (aggregateHoldings p). totalValue a \<noteq> NaN"
  shows "\<forall>y\<in>set (map (to_holding (totalEquity (stats p))) (fst (merged_maps p))).
           good (totalValue y)"
proof -
  have "set (map (to_holding (totalEquity (stats p))) (fst (merged_maps p))) =
        set (aggregateHoldings p)"
    by (simp add: holdings_entries)
  then show ?thesis using assms holding_total_good by blast
qed

lemma tie_order:
  assumes "\<forall>a\<in>set (aggregateHoldings p). totalValue a \<noteq> NaN"
  shows "map holding_ticker (filter (\<lambda>a. totalValue a = v) (aggregateHoldings p)) =
         filter (\<lambda>k. bucket_total p k = v) (first_seen [] (map fst (contributions p)))"
proof -
  let ?m = "fst (merged_maps p)"
  let ?te = "totalEquity (stats p)"
  have "filter (\<lambda>a. totalValue a = v) (aggregateHoldings p) =
        filter (\<lambda>a. totalValue a = v) (map (to_holding ?te) ?m)"
    unfolding aggregateHoldings_def using entries_good[OF assms] by (rule js_sort_stable)
  also have "\<dots> = map (to_holding ?te) (filter (\<lambda>ke. entry_value (snd ke) = v) ?m)"
    by (simp add: filter_map comp_def to_holding_def)
  finally have "map holding_ticker (filter (\<lambda>a. totalValue a = v) (aggregateHoldings p)) =
        map fst (filter (\<lambda>ke. entry_value (snd ke) = v) ?m)"
    by (simp only: tickers_of_holdings)
  also have "\<dots> = filter (\<lambda>k. bucket_total p k = v) (map fst ?m)"
  proof (rule map_fst_filter_values)
    show "\<forall>ke\<in>set ?m. entry_value (snd ke) = bucket_total p (fst ke)"
      using merged_entry_value by auto
  qed
  finally show ?thesis by (simp only: merged_keys)
qed

lemma stats_step_observed:
  "observed i = observed j \<Longrightarrow> stats_step a i = stats_step a j"
  by (auto simp: observed_def stats_step_def split: option.splits)

lemma item_step_observed:
  "observed i = observed j \<Longrightarrow> item_step m i = item_step m j"
  by (auto simp: observed_def item_step_def split: option.splits)

lemma foldl_observed:
  assumes "\<And>a i j. observed i = observed j \<Longrightarrow> f a i = f a j"
    and "map observed q = map observed p"
  shows "foldl f a q = foldl f a p"
  using assms(2)
proof (induction q arbitrary: p a)
  case Nil
  then show ?case by simp
next
  case (Cons i q)
  then obtain j p' where p: "p = j # p'" by (cases p) auto
  have "observed i = observed j" "map observed q = map observed p'"
    using Cons.prems by (simp_all add: p)
  then show ?case using Cons.IH[of p'] assms(1)[of i j] by (simp add: p)
qed

lemma aggregateHoldings_observed:
  assumes "map observed q = map observed p"
  shows "aggregateHoldings q = aggregateHoldings p"
proof -
  have "stats q = stats p"
    using foldl_observed[of stats_step q p, OF stats_step_observed assms]
    by (simp add: stats_def stats_with_def)
  moreover have "merged_maps q = merged_maps p"
    using foldl_observed[of item_step q p, OF item_step_observed assms]
    by (simp add: merged_maps_def)
  ultimately show ?thesis by (simp add: aggregateHoldings_def)
qed

text \<open>
  Claim C6, as the code has it. The result is determined by what the code reads of the
  positions, in their order: the equity, the profile and whether the error is set. Two
  calls on position lists that agree there give the same list, in the same order: so
  do two calls on the same unchanged positions. When no entry of the result has the
  total \<open>NaN\<close>, the result is sorted by \<open>totalValue\<close>, largest first, and the entries
  with one and the same total \<open>v\<close> stand in the order in which their keys were first
  inserted into the merge map, which is the order of the first occurrence of each key
  among the holdings. Nothing is said of the order when a total is \<open>NaN\<close>: the
  comparator is then not consistent, and the order is the engine's.
\<close>

theorem C6_sorted_stable:
  "(\<forall>q. map observed q = map observed p \<longrightarrow> aggregateHoldings q = aggregateHoldings p) \<and>
   ((\<forall>a\<in>set (aggregateHoldings p). totalValue a \<noteq> NaN) \<longrightarrow>
      sorted_wrt (\<lambda>a b. js_ge (totalValue a) (totalValue b)) (aggregateHoldings p) \<and>
      (\<forall>v. map holding_ticker (filter (\<lambda>a. totalValue a = v) (aggregateHoldings p)) =
            filter (\<lambda>k. bucket_total p k = v)
              (first_seen [] (map fst (contributions p)))))"
proof (intro conjI impI allI)
  fix q assume "map observed q = map observed p"
  then show "aggregateHoldings q = aggregateHoldings p" by (rule aggregateHoldings_observed)
next
  assume n: "\<forall>a\<in>set (aggregateHoldings p). totalValue a \<noteq> NaN"
  have "sorted_wrt (\<lambda>a b. js_ge (totalValue a) (totalValue b))
          (js_sort (\<lambda>a b. js_sub (totalValue b) (totalValue a))
             (map (to_holding (totalEquity (stats p))) (fst (merged_maps p))))"
    using entries_good[OF n] by (rule js_sort_sorted)
  then show "sorted_wrt (\<lambda>a b. js_ge (totalValue a) (totalValue b)) (aggregateHoldings p)"
    by (simp only: aggregateHoldings_def)
  show "map holding_ticker (filter (\<lambda>a. totalValue a = v) (aggregateHoldings p)) =
        filter (\<lambda>k. bucket_total p k = v) (first_seen [] (map fst (contributions p)))" for v
    using n by (rule tie_order)
qed

lemma no_NaN_in:
  assumes "map totalValue xs = vs" "NaN \<notin> set vs"
  shows "\<forall>a\<in>set xs. totalValue a \<noteq> NaN"
  using assms by (metis image_eqI list.set_map)

text \<open>
  MSFT and GOOG tie at 125 behind AAPL at 250; MSFT was inserted first. The same
  position under another id, still loading, gives the same result.
\<close>

theorem C6_sorted_stable_witness:
  "aggregateHoldings
     [(position ''SPY'' (Fin 1000)
         [holding (Some ''MSFT'') ''0.125'', holding (Some ''AAPL'') ''0.25'',
          holding (Some ''GOOG'') ''0.125''] [])\<lparr>item_id := ''1'', isLoading := True\<rparr>] =
   aggregateHoldings
     [position ''SPY'' (Fin 1000)
        [holding (Some ''MSFT'') ''0.125'', holding (Some ''AAPL'') ''0.25'',
         holding (Some ''GOOG'') ''0.125''] []] \<and>
   sorted_wrt (\<lambda>a b. js_ge (totalValue a) (totalValue b))
     (aggregateHoldings
        [position ''SPY'' (Fin 1000)
           [holding (Some ''MSFT'') ''0.125'', holding (Some ''AAPL'') ''0.25'',
            holding (Some ''GOOG'') ''0.125''] []]) \<and>
   map holding_ticker
     (filter (\<lambda>a. totalValue a = Fin 125)
        (aggregateHoldings
           [position ''SPY'' (Fin 1000)
              [holding (Some ''MSFT'') ''0.125'', holding (Some ''AAPL'') ''0.25'',
               holding (Some ''GOOG'') ''0.125''] []])) = [''MSFT'', ''GOOG'']"
proof -
  let ?i = "position ''SPY'' (Fin 1000)
              [holding (Some ''MSFT'') ''0.125'', holding (Some ''AAPL'') ''0.25'',
               holding (Some ''GOOG'') ''0.125''] []"
  let ?p = "[?i]"
  let ?q = "[?i\<lparr>item_id := ''1'', isLoading := True\<rparr>]"
  note t = C6_sorted_stable[of ?p]
  have o: "map observed ?q = map observed ?p" by (simp add: observed_def)
  have v: "map totalValue (aggregateHoldings ?p) = [Fin 250, Fin 125, Fin 125]"
    by (simp add: eval_aggregation eval_numbers)
  have n: "\<forall>a\<in>set (aggregateHoldings ?p). totalValue a \<noteq> NaN"
    using v by (rule no_NaN_in) simp
  have c: "contributions ?p = [(''MSFT'', Fin 125), (''AAPL'', Fin 250), (''GOOG'', Fin 125)]"
    by (simp add: eval_contributions eval_numbers)
  have f: "filter (\<lambda>k. bucket_total ?p k = Fin 125) (first_seen [] (map fst (contributions ?p))) =
        [''MSFT'', ''GOOG'']"
    by (simp add: c bucket_total_def js_sum_def eval_numbers)
  from t have t1: "\<forall>q. map observed q = map observed ?p \<longrightarrow>
      aggregateHoldings q = aggregateHoldings ?p" ..
  from t have t2: "(\<forall>a\<in>set (aggregateHoldings ?p). totalValue a \<noteq> NaN) \<longrightarrow>
      sorted_wrt (\<lambda>a b. js_ge (totalValue a) (totalValue b)) (aggregateHoldings ?p) \<and>
      (\<forall>v. map holding_ticker (filter (\<lambda>a. totalValue a = v) (aggregateHoldings ?p)) =
            filter (\<lambda>k. bucket_total ?p k = v)
              (first_seen [] (map fst (contributions ?p))))" ..
  from t2 n have t3:
     "sorted_wrt (\<lambda>a b. js_ge (totalValue a) (totalValue b)) (aggregateHoldings ?p) \<and>
      (\<forall>v. map holding_ticker (filter (\<lambda>a. totalValue a = v) (aggregateHoldings ?p)) =
            filter (\<lambda>k. bucket_total ?p k = v)
              (first_seen [] (map fst (contributions ?p))))" ..
  from t3 have s: "sorted_wrt (\<lambda>a b. js_ge (totalValue a) (totalValue b)) (aggregateHoldings ?p)" ..
  from t3 have "\<forall>v. map holding_ticker (filter (\<lambda>a. totalValue a = v) (aggregateHoldings ?p)) =
            filter (\<lambda>k. bucket_total ?p k = v)
              (first_seen [] (map fst (contributions ?p)))" ..
  then have "map holding_ticker (filter (\<lambda>a. totalValue a = Fin 125) (aggregateHoldings ?p)) =
            filter (\<lambda>k. bucket_total ?p k = Fin 125)
              (first_seen [] (map fst (contributions ?p)))" ..
  then have m: "map holding_ticker
     (filter (\<lambda>a. totalValue a = Fin 125) (aggregateHoldings ?p)) = [''MSFT'', ''GOOG'']"
    unfolding f .
  from t1 have "map observed ?q = map observed ?p \<longrightarrow>
      aggregateHoldings ?q = aggregateHoldings ?p" ..
  then have e: "aggregateHoldings ?q = aggregateHoldings ?p" using o ..
  from e s m show ?thesis by (intro conjI)
qed

lemma parse_Infinity: "parseFloat ''Infinity'' = PInf"
  by (simp add: parseFloat_def is_digit_def is_space_def)

text \<open>
  Claim C6 as stated fails once a total is \<open>NaN\<close>. Here a position of equity \<open>0\<close>
  holds AAPL with the weight \<open>Infinity\<close>, and \<open>0 * Infinity\<close> is \<open>NaN\<close>. The merge map
  holds the totals 125, \<open>NaN\<close>, 250 in this order. Every comparison \<open>b - a\<close> of two
  neighbours has the \<open>NaN\<close> entry on one side, gives \<open>NaN\<close> and is read as \<open>0\<close>, so
  the sort moves nothing and 125 stays ahead of 250. A weight that is not a number has
  the same effect.
\<close>

theorem C6_nan_total_counterexample:
  "map holding_ticker
     (aggregateHoldings
        [position ''VTI'' (Fin 1000) [holding (Some ''MSFT'') ''0.125''] [],
         position ''SPY'' (Fin 0) [holding (Some ''AAPL'') ''Infinity''] [],
         position ''QQQ'' (Fin 1000) [holding (Some ''GOOG'') ''0.25''] []]) =
     [''MSFT'', ''AAPL'', ''GOOG''] \<and>
   map totalValue
     (aggregateHoldings
        [position ''VTI'' (Fin 1000) [holding (Some ''MSFT'') ''0.125''] [],
         position ''SPY'' (Fin 0) [holding (Some ''AAPL'') ''Infinity''] [],
         position ''QQQ'' (Fin 1000) [holding (Some ''GOOG'') ''0.25''] []]) =
     [Fin 125, NaN, Fin 250] \<and>
   \<not> sorted_wrt (\<lambda>a b. js_ge (totalValue a) (totalValue b))
     (aggregateHoldings
        [position ''VTI'' (Fin 1000) [holding (Some ''MSFT'') ''0.125''] [],
         position ''SPY'' (Fin 0) [holding (Some ''AAPL'') ''Infinity''] [],
         position ''QQQ'' (Fin 1000) [holding (Some ''GOOG'') ''0.25''] []])"
  by (simp add: eval_aggregation eval_numbers parse_Infinity)

end
